theory Spec2Isabelle
  imports Complex_Main
begin

section \<open>Python values used by mdapackmol.py\<close>

text \<open>
  Exceptions are values. \<open>ValueError msg\<close> is the \<^verbatim>\<open>ValueError\<close> that \<^verbatim>\<open>run_packmol\<close>
  raises itself, with its message. The other constructors are the errors of the builtins and
  of the molecular library, whose own message texts are not modelled:
  \<open>IntParseError\<close> is the \<^verbatim>\<open>ValueError\<close> of \<^verbatim>\<open>int(str)\<close>, \<open>LengthError\<close> the
  \<^verbatim>\<open>ValueError\<close> of the library's setters when the number of values differs from the
  size of the group, \<open>TupleSizeError\<close> the \<^verbatim>\<open>ValueError\<close> of the library when the values
  given for a bonded attribute are not tuples of as many indices as the attribute wants,
  \<open>IndexError\<close> the list index out of range, \<open>UnicodeDecodeError\<close> the error of
  \<^verbatim>\<open>bytes.decode()\<close>, and \<open>IOError\<close> a failure of reading or writing a coordinate file.
\<close>

datatype py_error =
    ValueError string
  | IntParseError
  | LengthError
  | TupleSizeError
  | IndexError
  | UnicodeDecodeError
  | IOError

subsection \<open>Formatting integers: \<^verbatim>\<open>'{}'.format(n)\<close>\<close>

definition digit_char :: "nat \<Rightarrow> char" where
  "digit_char d = ''0123456789'' ! d"

fun str_nat :: "nat \<Rightarrow> string" where
  "str_nat n = (if n < 10 then [digit_char n] else str_nat (n div 10) @ [digit_char (n mod 10)])"

declare str_nat.simps [simp del]

definition str_int :: "int \<Rightarrow> string" where
  "str_int i = (if i < 0 then CHR ''-'' # str_nat (nat (- i)) else str_nat (nat i))"

subsection \<open>Parsing integers: \<^verbatim>\<open>int(s)\<close>\<close>

text \<open>
  \<^verbatim>\<open>int(s)\<close> on a string strips surrounding white space, accepts one sign, and then wants
  decimal digits, where single underscores may stand between two digits. Anything else is a
  \<^verbatim>\<open>ValueError\<close>, and so is a string of more digits than the interpreter converts (4300
  unless set otherwise; underscores and the sign do not count). Residue names are ASCII
  fields of a coordinate file, so only the ASCII white space (the bytes 9 to 13, and 32) and
  the ASCII digits are modelled.
\<close>

definition is_space :: "char \<Rightarrow> bool" where
  "is_space c = (let n = (of_char c :: nat) in (9 \<le> n \<and> n \<le> 13) \<or> n = 32)"

definition is_digit :: "char \<Rightarrow> bool" where
  "is_digit c = (let n = (of_char c :: nat) in 48 \<le> n \<and> n \<le> 57)"

definition digit_val :: "char \<Rightarrow> nat" where
  "digit_val c = of_char c - 48"

definition strip :: "string \<Rightarrow> string" where
  "strip s = rev (dropWhile is_space (rev (dropWhile is_space s)))"

text \<open>After a digit, a digit or an underscore may follow; after an underscore, a digit must.\<close>

fun digits_ok :: "bool \<Rightarrow> string \<Rightarrow> bool" where
  "digits_ok after_digit [] = after_digit"
| "digits_ok after_digit (c # cs) =
     (if is_digit c then digits_ok True cs
      else if c = CHR ''_'' \<and> after_digit then digits_ok False cs
      else False)"

definition digits_val :: "string \<Rightarrow> nat" where
  "digits_val s = foldl (\<lambda>a c. 10 * a + digit_val c) 0 (filter is_digit s)"

definition int_max_str_digits :: nat where
  "int_max_str_digits = 4300"

definition parse_digits :: "string \<Rightarrow> py_error + nat" where
  "parse_digits s =
     (if digits_ok False s \<and> length (filter is_digit s) \<le> int_max_str_digits
      then Inr (digits_val s) else Inl IntParseError)"

definition py_int :: "string \<Rightarrow> py_error + int" where
  "py_int s =
     (case strip s of
        [] \<Rightarrow> Inl IntParseError
      | c # cs \<Rightarrow>
          if c = CHR ''-'' then
            (case parse_digits cs of Inl e \<Rightarrow> Inl e | Inr n \<Rightarrow> Inr (- int n))
          else if c = CHR ''+'' then
            (case parse_digits cs of Inl e \<Rightarrow> Inl e | Inr n \<Rightarrow> Inr (int n))
          else
            (case parse_digits (c # cs) of Inl e \<Rightarrow> Inl e | Inr n \<Rightarrow> Inr (int n)))"

subsection \<open>Indexing a list: \<^verbatim>\<open>xs[i]\<close>\<close>

text \<open>A negative index counts from the end; outside \<open>[-len, len)\<close> the lookup raises.\<close>

definition py_getitem :: "'a list \<Rightarrow> int \<Rightarrow> py_error + 'a" where
  "py_getitem xs i =
     (if 0 \<le> i \<and> i < int (length xs) then Inr (xs ! nat i)
      else if i < 0 \<and> - int (length xs) \<le> i then Inr (xs ! nat (int (length xs) + i))
      else Inl IndexError)"

subsection \<open>Formatting bytes: \<^verbatim>\<open>'{}'.format(b)\<close>\<close>

text \<open>
  The text of a bytes object is its \<^verbatim>\<open>repr\<close>: \<^verbatim>\<open>b'...'\<close>, in double quotes when the bytes hold
  a single quote and no double quote, with the quote and the backslash escaped, tab, newline
  and carriage return as \<^verbatim>\<open>\t \n \r\<close>, and every other byte outside the printable ASCII range
  as \<^verbatim>\<open>\xhh\<close>.
\<close>

definition hex_char :: "nat \<Rightarrow> char" where
  "hex_char d = ''0123456789abcdef'' ! d"

definition repr_byte :: "char \<Rightarrow> char \<Rightarrow> string" where
  "repr_byte quote c =
     (let n = (of_char c :: nat) in
      if c = quote \<or> c = CHR 0x5C then [CHR 0x5C, c]
      else if c = CHR 0x09 then [CHR 0x5C, CHR ''t'']
      else if c = CHR 0x0A then [CHR 0x5C, CHR ''n'']
      else if c = CHR 0x0D then [CHR 0x5C, CHR ''r'']
      else if n < 32 \<or> 127 \<le> n then [CHR 0x5C, CHR ''x'', hex_char (n div 16), hex_char (n mod 16)]
      else [c])"

definition str_bytes :: "string \<Rightarrow> string" where
  "str_bytes b =
     (let quote = (if CHR 0x27 \<in> set b \<and> CHR 0x22 \<notin> set b then CHR 0x22 else CHR 0x27)
      in [CHR ''b'', quote] @ concat (map (repr_byte quote) b) @ [quote])"

subsection \<open>Decoding bytes: \<^verbatim>\<open>b.decode()\<close>\<close>

text \<open>
  \<^verbatim>\<open>decode()\<close> reads the bytes as UTF-8 and raises on the first sequence that is not
  well formed: a byte below 128 stands alone; a lead byte 194 to 223 wants one continuation
  byte (128 to 191), a lead byte 224 to 239 two, a lead byte 240 to 244 three, where the
  first continuation byte is at least 160 after 224, at most 159 after 237, at least 144
  after 240 and at most 143 after 244; no other byte may lead. Text is carried as its UTF-8
  bytes, so decoding gives the bytes back.
\<close>

definition is_cont :: "char \<Rightarrow> bool" where
  "is_cont c = (let n = (of_char c :: nat) in 128 \<le> n \<and> n \<le> 191)"

definition first_cont_ok :: "char \<Rightarrow> char \<Rightarrow> bool" where
  "first_cont_ok lead c =
     (let l = (of_char lead :: nat); n = (of_char c :: nat) in
      is_cont c
      \<and> (l = 224 \<longrightarrow> 160 \<le> n) \<and> (l = 237 \<longrightarrow> n \<le> 159)
      \<and> (l = 240 \<longrightarrow> 144 \<le> n) \<and> (l = 244 \<longrightarrow> n \<le> 143))"

fun utf8_ok :: "string \<Rightarrow> bool" where
  "utf8_ok [] = True"
| "utf8_ok (c # cs) =
     (if (of_char c :: nat) < 128 then utf8_ok cs
      else if 194 \<le> (of_char c :: nat) \<and> (of_char c :: nat) \<le> 223 then
        (case cs of
           c1 # rest \<Rightarrow> is_cont c1 \<and> utf8_ok rest
         | _ \<Rightarrow> False)
      else if 224 \<le> (of_char c :: nat) \<and> (of_char c :: nat) \<le> 239 then
        (case cs of
           c1 # c2 # rest \<Rightarrow> first_cont_ok c c1 \<and> is_cont c2 \<and> utf8_ok rest
         | _ \<Rightarrow> False)
      else if 240 \<le> (of_char c :: nat) \<and> (of_char c :: nat) \<le> 244 then
        (case cs of
           c1 # c2 # c3 # rest \<Rightarrow> first_cont_ok c c1 \<and> is_cont c2 \<and> is_cont c3 \<and> utf8_ok rest
         | _ \<Rightarrow> False)
      else False)"

definition decode :: "string \<Rightarrow> py_error + string" where
  "decode b = (if utf8_ok b then Inr b else Inl UnicodeDecodeError)"

section \<open>The data model\<close>

text \<open>
  An atom group as the program reads it: for each atom the index of its residue
  (\<^verbatim>\<open>atom.resindex\<close>), for each residue its name (\<^verbatim>\<open>residues.resnames\<close>), the per-atom
  attributes that exist (\<^verbatim>\<open>hasattr\<close>) with one value per atom, and the bonded index lists that
  exist, as \<^verbatim>\<open>to_indices()\<close> gives them. A universe is the group of all its atoms.
\<close>

datatype attr = Types | Names | Charges | Masses

datatype aval = Str string | Flt real

record atomgroup =
  resindices :: "nat list"
  resnames :: "string list"
  attrs :: "attr \<Rightarrow> aval list option"
  bonds :: "nat list list option"
  angles :: "nat list list option"
  dihedrals :: "nat list list option"
  impropers :: "nat list list option"

definition n_atoms :: "atomgroup \<Rightarrow> nat" where
  "n_atoms g = length (resindices g)"

definition n_residues :: "atomgroup \<Rightarrow> nat" where
  "n_residues g = length (resnames g)"

definition atom_resname :: "atomgroup \<Rightarrow> nat \<Rightarrow> string" where
  "atom_resname g i = resnames g ! (resindices g ! i)"

text \<open>\<^verbatim>\<open>atoms.resnames\<close>: the residue name of every atom.\<close>

definition atom_resnames :: "atomgroup \<Rightarrow> string list" where
  "atom_resnames g = map (\<lambda>r. resnames g ! r) (resindices g)"

record packmol_structure =
  ag :: atomgroup
  number :: int
  instructions :: "string list"

text \<open>
  A file holds text, or it is a coordinate file. Of a coordinate file this program reads
  nothing back but the residue names, so it is modelled by the residue-name field of each
  of its atom records, in order. The library's writer of the \<^verbatim>\<open>pdb\<close> format puts the first
  four characters of the atom's residue name in that field.
\<close>

datatype file_content = Text string | Coordinates "string list"

definition pdb_records :: "atomgroup \<Rightarrow> string list" where
  "pdb_records g = map (take 4) (atom_resnames g)"

text \<open>
  The working directory and a log of the files opened for reading. Whether a write of a
  coordinate file fails is not decided by this program: a writer gets the file name, the
  group and the files, and says \<open>None\<close> when the write goes through, or the files it
  leaves and the error it raises. The coordinate reader and the packer are parameters too.
\<close>

record world =
  files :: "string \<rightharpoonup> file_content"
  reads :: "string list"

type_synonym writer = "string \<Rightarrow> atomgroup \<Rightarrow> (string \<rightharpoonup> file_content) \<Rightarrow> ((string \<rightharpoonup> file_content) \<times> py_error) option"

type_synonym reader = "string \<Rightarrow> (string \<rightharpoonup> file_content) \<Rightarrow> py_error + atomgroup"

text \<open>The packer process: from the files to exit status, standard output, standard error and files.\<close>

type_synonym process = "(string \<rightharpoonup> file_content) \<Rightarrow> int \<times> string \<times> string \<times> (string \<rightharpoonup> file_content)"

definition PACKMOL_INP :: string where
  "PACKMOL_INP = ''packmol.inp''"

definition PACKMOL_STRUCTURE_FILES :: "nat \<Rightarrow> string" where
  "PACKMOL_STRUCTURE_FILES index = ''input'' @ str_nat index @ ''.pdb''"

definition PACKMOL_OUT :: string where
  "PACKMOL_OUT = ''output.pdb''"

section \<open>PackmolStructure\<close>

definition to_packmol_inp :: "packmol_structure \<Rightarrow> nat \<Rightarrow> string" where
  "to_packmol_inp self index =
     ''structure '' @ PACKMOL_STRUCTURE_FILES index @ [CHR 0x0A]
     @ ''  number '' @ str_int (number self) @ [CHR 0x0A]
     @ concat (map (\<lambda>instruction. ''  '' @ instruction @ [CHR 0x0A]) (instructions self))
     @ ''end structure'' @ [CHR 0x0A, CHR 0x0A]"

text \<open>The Replica Label \<^verbatim>\<open>'R{}'.format(index)\<close>.\<close>

definition replica_label :: "nat \<Rightarrow> string" where
  "replica_label index = CHR ''R'' # str_nat index"

text \<open>
  \<^verbatim>\<open>save_structure\<close> overwrites every residue name of the template with the label, writes,
  and puts the old names back. When the writer raises, the last statement is not reached.
  The result is the template as the call leaves it, the world, and the error raised.
\<close>

definition relabelled :: "atomgroup \<Rightarrow> nat \<Rightarrow> atomgroup" where
  "relabelled g index = g\<lparr>resnames := replicate (length (resnames g)) (replica_label index)\<rparr>"

definition save_structure ::
  "writer \<Rightarrow> packmol_structure \<Rightarrow> nat \<Rightarrow> world \<Rightarrow> packmol_structure \<times> world \<times> py_error option" where
  "save_structure wr self index w =
     (let old_resnames = resnames (ag self);
          self1 = self\<lparr>ag := relabelled (ag self) index\<rparr>
      in case wr (PACKMOL_STRUCTURE_FILES index) (ag self1) (files w) of
           Some (fs, e) \<Rightarrow> (self1, w\<lparr>files := fs\<rparr>, Some e)
         | None \<Rightarrow>
             (self1\<lparr>ag := (ag self1)\<lparr>resnames := old_resnames\<rparr>\<rparr>,
              w\<lparr>files := (files w)(PACKMOL_STRUCTURE_FILES index \<mapsto> Coordinates (pdb_records (ag self1)))\<rparr>,
              None))"

section \<open>The input generator\<close>

text \<open>
  The loop of \<^verbatim>\<open>make_packmol_input\<close> over \<^verbatim>\<open>enumerate(structures)\<close>: \<open>out\<close> is the text
  written to the input file so far. The tolerance is carried as its formatted text.
\<close>

fun write_structures ::
  "writer \<Rightarrow> nat \<Rightarrow> packmol_structure list \<Rightarrow> string \<Rightarrow> world
     \<Rightarrow> packmol_structure list \<times> string \<times> world \<times> py_error option" where
  "write_structures wr i [] out w = ([], out, w, None)"
| "write_structures wr i (structure # rest) out w =
     (let out1 = out @ to_packmol_inp structure i in
      case save_structure wr structure i w of
        (structure1, w1, Some e) \<Rightarrow> (structure1 # rest, out1, w1, Some e)
      | (structure1, w1, None) \<Rightarrow>
          (case write_structures wr (Suc i) rest out1 w1 of
             (rest1, out2, w2, r) \<Rightarrow> (structure1 # rest1, out2, w2, r)))"

definition make_packmol_input ::
  "writer \<Rightarrow> packmol_structure list \<Rightarrow> string option \<Rightarrow> world
     \<Rightarrow> packmol_structure list \<times> world \<times> py_error option" where
  "make_packmol_input wr structures tolerance w =
     (let tol = (case tolerance of None \<Rightarrow> ''2.0'' | Some t \<Rightarrow> t);
          out0 = ''# autogenerated packmol input'' @ [CHR 0x0A, CHR 0x0A]
                 @ ''tolerance '' @ tol @ [CHR 0x0A, CHR 0x0A]
                 @ ''filetype pdb'' @ [CHR 0x0A, CHR 0x0A]
      in case write_structures wr 0 structures out0 w of
           (structures1, out1, w1, Some e) \<Rightarrow>
             (structures1, w1\<lparr>files := (files w1)(PACKMOL_INP \<mapsto> Text out1)\<rparr>, Some e)
         | (structures1, out1, w1, None) \<Rightarrow>
             (structures1,
              w1\<lparr>files := (files w1)(PACKMOL_INP \<mapsto> Text (out1 @ ''output '' @ PACKMOL_OUT @ [CHR 0x0A, CHR 0x0A]))\<rparr>,
              None))"

section \<open>Running the packer and loading its output\<close>

text \<open>
  \<^verbatim>\<open>run_packmol\<close>. After a zero status the log file is opened for writing, which empties it,
  before the standard output is decoded; when the decoding raises, the file stays empty.
  The log file is taken to be written in UTF-8, the encoding the text was decoded from.
\<close>

definition run_packmol :: "process \<Rightarrow> world \<Rightarrow> world \<times> py_error option" where
  "run_packmol packer w =
     (case packer (files w) of
        (returncode, stdout, stderr, fs) \<Rightarrow>
          if returncode \<noteq> 0 then
            (w\<lparr>files := fs\<rparr>,
             Some (ValueError (''Packmol failed with errorcode '' @ str_int returncode
                               @ '' and stderr: '' @ str_bytes stderr)))
          else
            (case decode stdout of
               Inl e \<Rightarrow> (w\<lparr>files := fs(''packmol.stdout'' \<mapsto> Text [])\<rparr>, Some e)
             | Inr text \<Rightarrow> (w\<lparr>files := fs(''packmol.stdout'' \<mapsto> Text text)\<rparr>, None)))"

definition load_packmol_output :: "reader \<Rightarrow> world \<Rightarrow> world \<times> (py_error + atomgroup)" where
  "load_packmol_output rd w = (w\<lparr>reads := reads w @ [PACKMOL_OUT]\<rparr>, rd PACKMOL_OUT (files w))"

section \<open>Topology reassignment\<close>

subsection \<open>The library operations used\<close>

text \<open>
  \<^verbatim>\<open>xs[lo:hi]\<close> clips both bounds to the length; the group it selects is \<open>[a, b)\<close>.
\<close>

definition slice_bounds :: "nat \<Rightarrow> nat \<Rightarrow> nat \<Rightarrow> nat \<times> nat" where
  "slice_bounds n lo hi = (let a = min lo n in (a, max a (min hi n)))"

text \<open>
  Assigning an array to an attribute of a sliced group: the library checks that there is one
  value per member of the group, and raises a \<^verbatim>\<open>ValueError\<close> otherwise.
\<close>

definition set_slice :: "nat \<Rightarrow> 'a list \<Rightarrow> nat \<Rightarrow> nat \<Rightarrow> 'a list \<Rightarrow> py_error + 'a list" where
  "set_slice n xs lo hi vals =
     (case slice_bounds n lo hi of
        (a, b) \<Rightarrow> if length vals = b - a then Inr (take a xs @ vals @ drop b xs)
                  else Inl LengthError)"

text \<open>\<^verbatim>\<open>new.residues[lo:hi].resnames = vals\<close>\<close>

definition set_resnames :: "atomgroup \<Rightarrow> nat \<Rightarrow> nat \<Rightarrow> string list \<Rightarrow> py_error + atomgroup" where
  "set_resnames new lo hi vals =
     (case set_slice (n_residues new) (resnames new) lo hi vals of
        Inl e \<Rightarrow> Inl e
      | Inr names \<Rightarrow> Inr (new\<lparr>resnames := names\<rparr>))"

text \<open>
  \<^verbatim>\<open>setattr(new.atoms[lo:hi], attr, vals)\<close>. When the universe has no container for the
  attribute, the assignment lands on the transient group object and the universe is
  unchanged; \<^verbatim>\<open>reassign_topology\<close> never gets there, since it first adds a container for
  every attribute that some template has.
\<close>

definition setattr_atoms :: "atomgroup \<Rightarrow> attr \<Rightarrow> nat \<Rightarrow> nat \<Rightarrow> aval list \<Rightarrow> py_error + atomgroup" where
  "setattr_atoms new a lo hi vals =
     (case attrs new a of
        None \<Rightarrow> Inr new
      | Some cur \<Rightarrow>
          (case set_slice (n_atoms new) cur lo hi vals of
             Inl e \<Rightarrow> Inl e
           | Inr cur1 \<Rightarrow> Inr (new\<lparr>attrs := (attrs new)(a \<mapsto> cur1)\<rparr>)))"

text \<open>\<^verbatim>\<open>new.add_TopologyAttr(attr)\<close>: a fresh container with the blank value for every atom.\<close>

definition blank :: "attr \<Rightarrow> aval" where
  "blank a = (case a of Types \<Rightarrow> Str [] | Names \<Rightarrow> Str [] | Charges \<Rightarrow> Flt 0 | Masses \<Rightarrow> Flt 0)"

definition add_TopologyAttr :: "attr \<Rightarrow> atomgroup \<Rightarrow> atomgroup" where
  "add_TopologyAttr a new = new\<lparr>attrs := (attrs new)(a \<mapsto> replicate (n_atoms new) (blank a))\<rparr>"

definition attr_names :: "attr list" where
  "attr_names = [Types, Names, Charges, Masses]"

definition hasattr :: "atomgroup \<Rightarrow> attr \<Rightarrow> bool" where
  "hasattr g a = (attrs g a \<noteq> None)"

subsection \<open>Adding the required attributes\<close>

text \<open>One round of the first loop of \<^verbatim>\<open>reassign_topology\<close>; \<open>warns\<close> are the warnings emitted.\<close>

definition add_required_attr ::
  "packmol_structure list \<Rightarrow> attr \<Rightarrow> atomgroup \<times> string list \<Rightarrow> atomgroup \<times> string list" where
  "add_required_attr structures a st =
     (case st of
        (new, warns) \<Rightarrow>
          if list_ex (\<lambda>pms. hasattr (ag pms) a) structures then
            (add_TopologyAttr a new,
             if \<not> list_all (\<lambda>pms. hasattr (ag pms) a) structures
             then warns @ [''added attribute which not all templates had'']
             else warns)
          else (new, warns))"

definition add_required_attributes ::
  "packmol_structure list \<Rightarrow> atomgroup \<Rightarrow> atomgroup \<times> string list" where
  "add_required_attributes structures new =
     fold (add_required_attr structures) attr_names (new, [])"

subsection \<open>The block walk\<close>

text \<open>The variables of the loop: the universe, the cursor and the four running lists.\<close>

record walk_state =
  new_universe :: atomgroup
  index :: nat
  bonds_acc :: "nat list list"
  angles_acc :: "nat list list"
  dihedrals_acc :: "nat list list"
  impropers_acc :: "nat list list"

text \<open>\<^verbatim>\<open>structures[int(start.resname[1:])].ag\<close> for the atom at the cursor.\<close>

definition template_at :: "packmol_structure list \<Rightarrow> walk_state \<Rightarrow> py_error + atomgroup" where
  "template_at structures s =
     (case py_int (drop 1 (atom_resname (new_universe s) (index s))) of
        Inl e \<Rightarrow> Inl e
      | Inr t \<Rightarrow>
          (case py_getitem structures t of
             Inl e \<Rightarrow> Inl e
           | Inr pms \<Rightarrow> Inr (ag pms)))"

text \<open>The loop over the four attribute names inside the walk.\<close>

fun set_attrs :: "attr list \<Rightarrow> atomgroup \<Rightarrow> nat \<Rightarrow> nat \<Rightarrow> atomgroup \<Rightarrow> py_error + atomgroup" where
  "set_attrs [] new lo hi template = Inr new"
| "set_attrs (a # rest) new lo hi template =
     (case attrs template a of
        None \<Rightarrow> set_attrs rest new lo hi template
      | Some vals \<Rightarrow>
          (case setattr_atoms new a lo hi vals of
             Inl e \<Rightarrow> Inl e
           | Inr new1 \<Rightarrow> set_attrs rest new1 lo hi template))"

text \<open>\<^verbatim>\<open>(template.bonds.to_indices() + index).tolist()\<close>, or nothing without the attribute.\<close>

definition offset_indices :: "nat list list option \<Rightarrow> nat \<Rightarrow> nat list list" where
  "offset_indices idx c = (case idx of None \<Rightarrow> [] | Some tuples \<Rightarrow> map (map (\<lambda>i. i + c)) tuples)"

text \<open>One round of the \<^verbatim>\<open>while\<close> loop.\<close>

definition walk_step :: "packmol_structure list \<Rightarrow> walk_state \<Rightarrow> py_error + walk_state" where
  "walk_step structures s =
     (case template_at structures s of
        Inl e \<Rightarrow> Inl e
      | Inr template \<Rightarrow>
          (let start_resindex = resindices (new_universe s) ! index s;
               nres = n_residues template
           in case set_resnames (new_universe s) start_resindex (start_resindex + nres) (resnames template) of
                Inl e \<Rightarrow> Inl e
              | Inr new1 \<Rightarrow>
                  (case set_attrs attr_names new1 (index s) (index s + n_atoms template) template of
                     Inl e \<Rightarrow> Inl e
                   | Inr new2 \<Rightarrow>
                       Inr \<lparr>new_universe = new2,
                            index = index s + n_atoms template,
                            bonds_acc = bonds_acc s @ offset_indices (bonds template) (index s),
                            angles_acc = angles_acc s @ offset_indices (angles template) (index s),
                            dihedrals_acc = dihedrals_acc s @ offset_indices (dihedrals template) (index s),
                            impropers_acc = impropers_acc s @ offset_indices (impropers template) (index s)\<rparr>)))"

text \<open>
  The \<^verbatim>\<open>while\<close> loop. It need not end: \<open>None\<close> is the run that never leaves the loop.
\<close>

partial_function (option) walk :: "packmol_structure list \<Rightarrow> walk_state \<Rightarrow> (py_error + walk_state) option" where
  "walk structures s =
     (if index s < n_atoms (new_universe s) then
        (case walk_step structures s of
           Inl e \<Rightarrow> Some (Inl e)
         | Inr s1 \<Rightarrow> walk structures s1)
      else Some (Inr s))"

declare walk.simps [code]

subsection \<open>Attaching the bonded lists\<close>

text \<open>
  \<^verbatim>\<open>new.add_TopologyAttr(name, values=values)\<close> for a bonded attribute: the library wants
  every value to be a tuple of as many atom indices as the attribute has (two for bonds,
  three for angles, four for dihedrals and impropers) and raises a \<^verbatim>\<open>ValueError\<close> otherwise.
\<close>

datatype bonded = Bonds | Angles | Dihedrals | Impropers

definition tuple_size :: "bonded \<Rightarrow> nat" where
  "tuple_size b = (case b of Bonds \<Rightarrow> 2 | Angles \<Rightarrow> 3 | Dihedrals \<Rightarrow> 4 | Impropers \<Rightarrow> 4)"

definition add_TopologyAttr_values :: "bonded \<Rightarrow> nat list list \<Rightarrow> atomgroup \<Rightarrow> py_error + atomgroup" where
  "add_TopologyAttr_values b values g =
     (if list_all (\<lambda>val. length val = tuple_size b) values then
        Inr (case b of
               Bonds \<Rightarrow> g\<lparr>bonds := Some values\<rparr>
             | Angles \<Rightarrow> g\<lparr>angles := Some values\<rparr>
             | Dihedrals \<Rightarrow> g\<lparr>dihedrals := Some values\<rparr>
             | Impropers \<Rightarrow> g\<lparr>impropers := Some values\<rparr>)
      else Inl TupleSizeError)"

text \<open>
  The four \<^verbatim>\<open>if\<close> statements after the loop, each of which may raise. The values given
  for \<^verbatim>\<open>'angles'\<close> are \<^verbatim>\<open>[tuple(val) for val in bonds]\<close>, as the source has it.
\<close>

definition attach_topology :: "walk_state \<Rightarrow> py_error + atomgroup" where
  "attach_topology s =
     (case (if bonds_acc s \<noteq> [] then add_TopologyAttr_values Bonds (bonds_acc s) (new_universe s)
            else Inr (new_universe s)) of
        Inl e \<Rightarrow> Inl e
      | Inr new1 \<Rightarrow>
          (case (if angles_acc s \<noteq> [] then add_TopologyAttr_values Angles (bonds_acc s) new1
                 else Inr new1) of
             Inl e \<Rightarrow> Inl e
           | Inr new2 \<Rightarrow>
               (case (if dihedrals_acc s \<noteq> [] then add_TopologyAttr_values Dihedrals (dihedrals_acc s) new2
                      else Inr new2) of
                  Inl e \<Rightarrow> Inl e
                | Inr new3 \<Rightarrow>
                    (if impropers_acc s \<noteq> [] then add_TopologyAttr_values Impropers (impropers_acc s) new3
                     else Inr new3))))"

definition initial_state :: "atomgroup \<Rightarrow> walk_state" where
  "initial_state new0 =
     \<lparr>new_universe = new0, index = 0, bonds_acc = [], angles_acc = [], dihedrals_acc = [], impropers_acc = []\<rparr>"

text \<open>
  \<^verbatim>\<open>reassign_topology\<close>: the warnings emitted, and the universe returned or the error
  raised; \<open>None\<close> when the walk does not end.
\<close>

definition reassign_topology ::
  "packmol_structure list \<Rightarrow> atomgroup \<Rightarrow> (string list \<times> (py_error + atomgroup)) option" where
  "reassign_topology structures new0 =
     (case add_required_attributes structures new0 of
        (new1, warns) \<Rightarrow>
          (case walk structures (initial_state new1) of
             None \<Rightarrow> None
           | Some (Inl e) \<Rightarrow> Some (warns, Inl e)
           | Some (Inr s) \<Rightarrow> Some (warns, attach_topology s)))"

section \<open>The orchestrator\<close>

text \<open>
  \<^verbatim>\<open>packmol\<close>: each step runs only when the one before raised nothing. The result is the
  templates and the world as the call leaves them, and the universe returned or the error.
\<close>

definition packmol ::
  "writer \<Rightarrow> process \<Rightarrow> reader \<Rightarrow> packmol_structure list \<Rightarrow> string option \<Rightarrow> world
     \<Rightarrow> (packmol_structure list \<times> world \<times> (py_error + atomgroup)) option" where
  "packmol wr packer rd structures tolerance w =
     (case make_packmol_input wr structures tolerance w of
        (structures1, w1, Some e) \<Rightarrow> Some (structures1, w1, Inl e)
      | (structures1, w1, None) \<Rightarrow>
          (case run_packmol packer w1 of
             (w2, Some e) \<Rightarrow> Some (structures1, w2, Inl e)
           | (w2, None) \<Rightarrow>
               (case load_packmol_output rd w2 of
                  (w3, Inl e) \<Rightarrow> Some (structures1, w3, Inl e)
                | (w3, Inr new0) \<Rightarrow>
                    (case reassign_topology structures1 new0 of
                       None \<Rightarrow> None
                     | Some (warns, Inl e) \<Rightarrow> Some (structures1, w3, Inl e)
                     | Some (warns, Inr new1) \<Rightarrow> Some (structures1, w3, Inr new1)))))"

section \<open>Notions used to state the properties\<close>

subsection \<open>Cursor positions\<close>

text \<open>
  The state at the start of round \<open>n + 1\<close> of the loop, when the loop gets there: \<open>None\<close>
  when it has ended or raised before.
\<close>

fun walk_rounds :: "nat \<Rightarrow> packmol_structure list \<Rightarrow> walk_state \<Rightarrow> walk_state option" where
  "walk_rounds 0 structures s = Some s"
| "walk_rounds (Suc n) structures s =
     (if index s < n_atoms (new_universe s) then
        (case walk_step structures s of
           Inl e \<Rightarrow> None
         | Inr s1 \<Rightarrow> walk_rounds n structures s1)
      else None)"

text \<open>An atom group without atoms: it has no residues, and its attribute arrays are empty.\<close>

definition empty_group :: "atomgroup \<Rightarrow> bool" where
  "empty_group g =
     (resindices g = [] \<and> resnames g = []
      \<and> list_all (\<lambda>a. case attrs g a of None \<Rightarrow> True | Some vals \<Rightarrow> vals = []) attr_names)"

subsection \<open>Packed structures that mirror their templates\<close>

text \<open>
  What the packer is relied on to produce for a sequence of replica blocks, given by their
  template indices: every block has the atoms of its template, in residues that follow those
  of the block before and are laid out as in the template, each labelled \<^verbatim>\<open>R{t}\<close>.
  \<open>block_resindices\<close> are the residue indices of the atoms, \<open>block_labels\<close> the residue names.
  A template is \<open>laid_out\<close> when its first atom is in its first residue and every atom is in one of its
  residues.
\<close>

fun block_resindices :: "packmol_structure list \<Rightarrow> nat list \<Rightarrow> nat \<Rightarrow> nat list" where
  "block_resindices structures [] base = []"
| "block_resindices structures (t # ts) base =
     map (\<lambda>r. r + base) (resindices (ag (structures ! t)))
     @ block_resindices structures ts (base + n_residues (ag (structures ! t)))"

definition block_labels :: "packmol_structure list \<Rightarrow> nat list \<Rightarrow> string list" where
  "block_labels structures ts =
     concat (map (\<lambda>t. replicate (n_residues (ag (structures ! t))) (replica_label t)) ts)"

definition laid_out :: "atomgroup \<Rightarrow> bool" where
  "laid_out g =
     (resindices g \<noteq> [] \<and> hd (resindices g) = 0 \<and> list_all (\<lambda>r. r < n_residues g) (resindices g))"

section \<open>Example inputs\<close>

text \<open>A writer that never fails, and one that raises without touching the files.\<close>

definition example_writer :: writer where
  "example_writer name g fs = None"

definition failing_writer :: writer where
  "failing_writer name g fs = Some (fs, IOError)"

text \<open>Template A: three atoms in one residue, bonds \<open>(0,1)\<close> and \<open>(1,2)\<close>, one angle.\<close>

definition template_A :: atomgroup where
  "template_A = \<lparr>resindices = [0, 0, 0], resnames = [''AAA''], attrs = (\<lambda>a. None),
     bonds = Some [[0, 1], [1, 2]], angles = Some [[0, 1, 2]], dihedrals = None, impropers = None\<rparr>"

definition structure_A :: packmol_structure where
  "structure_A = \<lparr>ag = template_A, number = 2, instructions = []\<rparr>"

text \<open>Template G: three atoms in one residue, one angle and no bonds.\<close>

definition template_G :: atomgroup where
  "template_G = \<lparr>resindices = [0, 0, 0], resnames = [''GGG''], attrs = (\<lambda>a. None),
     bonds = None, angles = Some [[0, 1, 2]], dihedrals = None, impropers = None\<rparr>"

definition structure_G :: packmol_structure where
  "structure_G = \<lparr>ag = template_G, number = 1, instructions = []\<rparr>"

definition empty_world :: world where
  "empty_world = \<lparr>files = Map.empty, reads = []\<rparr>"

text \<open>
  A packer that fails with status 173, one that succeeds, one that succeeds with a byte on
  its standard output that is not UTF-8, and a reader that finds no file.
\<close>

definition failing_packer :: process where
  "failing_packer fs = (173, ''some output'', ''cannot converge'', fs)"

definition quiet_packer :: process where
  "quiet_packer fs = (0, ''Success!'', [], fs)"

definition garbled_packer :: process where
  "garbled_packer fs = (0, [CHR 0xFF], [], fs)"

definition no_reader :: reader where
  "no_reader name fs = Inl IOError"

text \<open>The world after the input for no descriptors has been generated.\<close>

definition generated_world :: world where
  "generated_world =
     \<lparr>files = [PACKMOL_INP \<mapsto>
                Text (''# autogenerated packmol input'' @ [CHR 0x0A, CHR 0x0A]
                      @ ''tolerance 2.0'' @ [CHR 0x0A, CHR 0x0A]
                      @ ''filetype pdb'' @ [CHR 0x0A, CHR 0x0A]
                      @ ''output output.pdb'' @ [CHR 0x0A, CHR 0x0A])],
      reads = []\<rparr>"

text \<open>One replica of template A as the packer leaves it: three atoms in a residue named \<^verbatim>\<open>R0\<close>.\<close>

definition packed_A :: atomgroup where
  "packed_A = \<lparr>resindices = [0, 0, 0], resnames = [''R0''], attrs = (\<lambda>a. None),
     bonds = None, angles = None, dihedrals = None, impropers = None\<rparr>"

text \<open>A template without atoms, and a packed structure of one atom labelled \<^verbatim>\<open>R0\<close>.\<close>

definition template_E :: atomgroup where
  "template_E = \<lparr>resindices = [], resnames = [], attrs = (\<lambda>a. None),
     bonds = None, angles = None, dihedrals = None, impropers = None\<rparr>"

definition structure_E :: packmol_structure where
  "structure_E = \<lparr>ag = template_E, number = 1, instructions = []\<rparr>"

definition packed_single :: atomgroup where
  "packed_single = \<lparr>resindices = [0], resnames = [''R0''], attrs = (\<lambda>a. None),
     bonds = None, angles = None, dihedrals = None, impropers = None\<rparr>"

text \<open>
  One replica of template A followed by an atom whose label has no number, or a number too
  large, or the byte 28 before its number.
\<close>

definition packed_bad_label :: atomgroup where
  "packed_bad_label = \<lparr>resindices = [0, 0, 0, 1], resnames = [''R0'', ''RX''], attrs = (\<lambda>a. None),
     bonds = None, angles = None, dihedrals = None, impropers = None\<rparr>"

definition packed_ctrl_label :: atomgroup where
  "packed_ctrl_label = \<lparr>resindices = [0, 0, 0, 1], resnames = [''R0'', [CHR ''R'', CHR 0x1C, CHR ''0'']],
     attrs = (\<lambda>a. None), bonds = None, angles = None, dihedrals = None, impropers = None\<rparr>"

definition packed_bad_index :: atomgroup where
  "packed_bad_index = \<lparr>resindices = [0, 0, 0, 1], resnames = [''R0'', ''R5''], attrs = (\<lambda>a. None),
     bonds = None, angles = None, dihedrals = None, impropers = None\<rparr>"

text \<open>
  The scenario of two descriptors: template A (three atoms, bonds \<open>(0,1)\<close> and \<open>(1,2)\<close>,
  two replicas) and template B (two atoms, bond \<open>(0,1)\<close>, one replica), packed in that order,
  and the structure expected back.
\<close>

definition scenario_A :: atomgroup where
  "scenario_A = \<lparr>resindices = [0, 0, 0], resnames = [''AAA''], attrs = (\<lambda>a. None),
     bonds = Some [[0, 1], [1, 2]], angles = None, dihedrals = None, impropers = None\<rparr>"

definition scenario_B :: atomgroup where
  "scenario_B = \<lparr>resindices = [0, 0], resnames = [''BBB''], attrs = (\<lambda>a. None),
     bonds = Some [[0, 1]], angles = None, dihedrals = None, impropers = None\<rparr>"

definition scenario :: "packmol_structure list" where
  "scenario = [\<lparr>ag = scenario_A, number = 2, instructions = []\<rparr>,
               \<lparr>ag = scenario_B, number = 1, instructions = []\<rparr>]"

definition packed_AAB :: atomgroup where
  "packed_AAB = \<lparr>resindices = [0, 0, 0, 1, 1, 1, 2, 2], resnames = [''R0'', ''R0'', ''R1''],
     attrs = (\<lambda>a. None), bonds = None, angles = None, dihedrals = None, impropers = None\<rparr>"

definition reassigned_AAB :: atomgroup where
  "reassigned_AAB = packed_AAB\<lparr>resnames := [''AAA'', ''AAA'', ''BBB''],
     bonds := Some [[0, 1], [1, 2], [3, 4], [4, 5], [6, 7]]\<rparr>"

text \<open>
  Template C has three atoms and no attribute; template Q has three atoms with charges. A
  packed structure of only two atoms labelled \<^verbatim>\<open>R0\<close>, and one replica of C followed by one
  of Q, each with the structure that comes back.
\<close>

definition template_C :: atomgroup where
  "template_C = \<lparr>resindices = [0, 0, 0], resnames = [''CCC''], attrs = (\<lambda>a. None),
     bonds = None, angles = None, dihedrals = None, impropers = None\<rparr>"

definition structure_C :: packmol_structure where
  "structure_C = \<lparr>ag = template_C, number = 1, instructions = []\<rparr>"

definition template_Q :: atomgroup where
  "template_Q = \<lparr>resindices = [0, 0, 0], resnames = [''QQQ''],
     attrs = (\<lambda>a. None)(Charges \<mapsto> [Flt 1, Flt 2, Flt 3]),
     bonds = None, angles = None, dihedrals = None, impropers = None\<rparr>"

definition structure_Q :: packmol_structure where
  "structure_Q = \<lparr>ag = template_Q, number = 1, instructions = []\<rparr>"

definition packed_short :: atomgroup where
  "packed_short = \<lparr>resindices = [0, 0], resnames = [''R0''], attrs = (\<lambda>a. None),
     bonds = None, angles = None, dihedrals = None, impropers = None\<rparr>"

definition reassigned_short :: atomgroup where
  "reassigned_short = packed_short\<lparr>resnames := [''CCC'']\<rparr>"

definition packed_CQ :: atomgroup where
  "packed_CQ = \<lparr>resindices = [0, 0, 0, 1, 1, 1], resnames = [''R0'', ''R1''], attrs = (\<lambda>a. None),
     bonds = None, angles = None, dihedrals = None, impropers = None\<rparr>"

definition reassigned_CQ :: atomgroup where
  "reassigned_CQ = packed_CQ\<lparr>resnames := [''CCC'', ''QQQ''],
     attrs := (\<lambda>a. None)(Charges \<mapsto> [Flt 0, Flt 0, Flt 0, Flt 1, Flt 2, Flt 3])\<rparr>"

text \<open>
  Template D has two atoms in one residue; in the packed structure the two atoms are in two
  residues. Template R has a residue that is itself named \<^verbatim>\<open>R0\<close>.
\<close>

definition template_D :: atomgroup where
  "template_D = \<lparr>resindices = [0, 0], resnames = [''DDD''], attrs = (\<lambda>a. None),
     bonds = None, angles = None, dihedrals = None, impropers = None\<rparr>"

definition structure_D :: packmol_structure where
  "structure_D = \<lparr>ag = template_D, number = 1, instructions = []\<rparr>"

definition packed_split :: atomgroup where
  "packed_split = \<lparr>resindices = [0, 1], resnames = [''R0'', ''R0''], attrs = (\<lambda>a. None),
     bonds = None, angles = None, dihedrals = None, impropers = None\<rparr>"

definition template_R :: atomgroup where
  "template_R = \<lparr>resindices = [0], resnames = [''R0''], attrs = (\<lambda>a. None),
     bonds = None, angles = None, dihedrals = None, impropers = None\<rparr>"

definition structure_R :: packmol_structure where
  "structure_R = \<lparr>ag = template_R, number = 1, instructions = []\<rparr>"

section \<open>Serialising a template\<close>

lemma str_nat_short: "n < 1000 \<Longrightarrow> length (str_nat n) \<le> 3"
proof -
  assume n: "n < 1000"
  have one: "length (str_nat m) = 1" if "m < 10" for m
    using that by (subst str_nat.simps) simp
  have two: "length (str_nat m) \<le> 2" if "m < 100" for m
  proof (cases "m < 10")
    case True
    with one show ?thesis by simp
  next
    case False
    from that have "m div 10 < 10" by simp
    with one False show ?thesis by (subst str_nat.simps) simp
  qed
  show ?thesis
  proof (cases "n < 10")
    case True
    with one show ?thesis by simp
  next
    case False
    from n have "n div 10 < 100" by simp
    with two False show ?thesis by (subst str_nat.simps) simp
  qed
qed

text \<open>
  C4, as the code has it. When \<^verbatim>\<open>save_structure(i)\<close> returns normally, the template is
  exactly what it was before the call, and the coordinate file of descriptor \<open>i\<close> has one
  atom record for each atom of the template, whose residue name is the first four
  characters of \<^verbatim>\<open>R{i}\<close>: that is \<^verbatim>\<open>R{i}\<close> itself for every \<open>i\<close> below 1000.
\<close>

theorem save_structure_round_trip:
  assumes "save_structure wr self i w = (self1, w1, None)"
  shows "self1 = self
       \<and> reads w1 = reads w
       \<and> (\<exists>fields. files w1 (PACKMOL_STRUCTURE_FILES i) = Some (Coordinates fields)
             \<and> length fields = n_atoms (ag self)
             \<and> (\<forall>j < n_atoms (ag self). resindices (ag self) ! j < n_residues (ag self)
                   \<longrightarrow> fields ! j = take 4 (replica_label i)))
       \<and> (i < 1000 \<longrightarrow> take 4 (replica_label i) = replica_label i)"
proof -
  from assms have r: "wr (PACKMOL_STRUCTURE_FILES i) (relabelled (ag self) i) (files w) = None"
    by (cases "wr (PACKMOL_STRUCTURE_FILES i) (relabelled (ag self) i) (files w)")
       (auto simp: save_structure_def Let_def)
  with assms have w1: "w1 = w\<lparr>files := (files w)(PACKMOL_STRUCTURE_FILES i
                           \<mapsto> Coordinates (pdb_records (relabelled (ag self) i)))\<rparr>"
    by (simp add: save_structure_def Let_def)
  from assms r have "self1 = self\<lparr>ag := (relabelled (ag self) i)\<lparr>resnames := resnames (ag self)\<rparr>\<rparr>"
    by (simp add: save_structure_def Let_def)
  then have s1: "self1 = self"
    by (simp add: relabelled_def)
  have len: "length (pdb_records (relabelled (ag self) i)) = n_atoms (ag self)"
    by (simp add: pdb_records_def atom_resnames_def relabelled_def n_atoms_def)
  have fields: "\<forall>j < n_atoms (ag self). resindices (ag self) ! j < n_residues (ag self)
             \<longrightarrow> pdb_records (relabelled (ag self) i) ! j = take 4 (replica_label i)"
    by (simp add: pdb_records_def atom_resnames_def relabelled_def n_atoms_def n_residues_def)
  have short: "take 4 (replica_label i) = replica_label i" if "i < 1000"
    using str_nat_short [OF that] by (simp add: replica_label_def)
  from s1 w1 len fields short show ?thesis by simp
qed

theorem save_structure_round_trip_witness:
  "save_structure example_writer structure_A 7 empty_world
     = (structure_A, \<lparr>files = [''input7.pdb'' \<mapsto> Coordinates [''R7'', ''R7'', ''R7'']], reads = []\<rparr>, None)
   \<and> (\<exists>fields. files \<lparr>files = [''input7.pdb'' \<mapsto> Coordinates [''R7'', ''R7'', ''R7'']], reads = []\<rparr>
                       (PACKMOL_STRUCTURE_FILES 7) = Some (Coordinates fields)
         \<and> fields ! 2 = replica_label 7)"
proof -
  have run: "save_structure example_writer structure_A 7 empty_world
     = (structure_A, \<lparr>files = [''input7.pdb'' \<mapsto> Coordinates [''R7'', ''R7'', ''R7'']], reads = []\<rparr>, None)"
    by (simp add: save_structure_def example_writer_def structure_A_def template_A_def
        empty_world_def relabelled_def replica_label_def PACKMOL_STRUCTURE_FILES_def
        pdb_records_def atom_resnames_def str_nat.simps digit_char_def)
  have "2 < n_atoms (ag structure_A)" "resindices (ag structure_A) ! 2 < n_residues (ag structure_A)"
    "(7::nat) < 1000"
    by (simp_all add: structure_A_def template_A_def n_atoms_def n_residues_def)
  with save_structure_round_trip [OF run]
  have "\<exists>fields. files \<lparr>files = [''input7.pdb'' \<mapsto> Coordinates [''R7'', ''R7'', ''R7'']], reads = []\<rparr>
                       (PACKMOL_STRUCTURE_FILES 7) = Some (Coordinates fields)
         \<and> fields ! 2 = replica_label 7"
    by metis
  with run show ?thesis by simp
qed

text \<open>
  C4, as stated, fails: for descriptor 1000 the call returns normally and every atom record
  of the file written has the residue name \<^verbatim>\<open>R100\<close>, while the label is \<^verbatim>\<open>R1000\<close>.
\<close>

theorem long_label_is_cut:
  "save_structure example_writer structure_A 1000 empty_world
     = (structure_A,
        \<lparr>files = [''input1000.pdb'' \<mapsto> Coordinates [''R100'', ''R100'', ''R100'']], reads = []\<rparr>,
        None)
   \<and> replica_label 1000 = ''R1000''"
  by (simp add: save_structure_def example_writer_def structure_A_def template_A_def
        empty_world_def relabelled_def replica_label_def PACKMOL_STRUCTURE_FILES_def
        pdb_records_def atom_resnames_def str_nat.simps digit_char_def)

text \<open>
  C5. When the writer raises, \<^verbatim>\<open>save_structure\<close> leaves the template with the label as its
  residue name: with a writer that fails, template A, whose residue is named \<^verbatim>\<open>AAA\<close>, comes
  back named \<^verbatim>\<open>R0\<close>, together with the error.
\<close>

theorem save_structure_failure_leaves_label:
  "save_structure failing_writer structure_A 0 empty_world
     = (structure_A\<lparr>ag := template_A\<lparr>resnames := [''R0'']\<rparr>\<rparr>, empty_world, Some IOError)
   \<and> resnames (ag structure_A) = [''AAA'']"
  by (simp add: save_structure_def failing_writer_def structure_A_def template_A_def
        empty_world_def relabelled_def replica_label_def PACKMOL_STRUCTURE_FILES_def
        str_nat.simps digit_char_def)

section \<open>Packer invocation\<close>

lemma save_structure_reads: "save_structure wr self i w = (self1, w1, r) \<Longrightarrow> reads w1 = reads w"
  by (auto simp: save_structure_def Let_def split: prod.splits option.splits)

lemma write_structures_reads:
  "write_structures wr i structures out w = (structures1, out1, w1, r) \<Longrightarrow> reads w1 = reads w"
proof (induction structures arbitrary: i out w structures1 out1 w1 r)
  case Nil
  then show ?case by simp
next
  case (Cons x xs)
  obtain x1 wa ra where sv: "save_structure wr x i w = (x1, wa, ra)"
    by (cases "save_structure wr x i w")
  then have ra: "reads wa = reads w" by (rule save_structure_reads)
  show ?case
  proof (cases ra)
    case None
    obtain xs1 o2 w2 r2
      where rec: "write_structures wr (Suc i) xs (out @ to_packmol_inp x i) wa = (xs1, o2, w2, r2)"
      by (cases "write_structures wr (Suc i) xs (out @ to_packmol_inp x i) wa")
    from Cons.IH [OF rec] have "reads w2 = reads wa" .
    moreover from Cons.prems sv None rec have "w1 = w2" by (simp add: Let_def)
    ultimately show ?thesis using ra by simp
  next
    case (Some e)
    with Cons.prems sv have "w1 = wa" by (simp add: Let_def)
    with ra show ?thesis by simp
  qed
qed

lemma make_packmol_input_reads:
  "make_packmol_input wr structures tolerance w = (structures1, w1, r) \<Longrightarrow> reads w1 = reads w"
  by (auto simp: make_packmol_input_def Let_def split: prod.splits option.splits
           dest: write_structures_reads)

text \<open>
  C8, as the code has it. Let the input have been generated and the packer exit with some
  status. When the status is not zero, \<^verbatim>\<open>run_packmol\<close> raises a \<^verbatim>\<open>ValueError\<close> whose message
  holds the status and the captured standard error, \<^verbatim>\<open>packmol\<close> ends with that error, and no
  file has been opened for reading. When the status is zero and the captured standard
  output is UTF-8, \<^verbatim>\<open>run_packmol\<close> returns normally, with that output in the file
  \<^verbatim>\<open>packmol.stdout\<close>. When the status is zero and the output is not UTF-8, \<^verbatim>\<open>run_packmol\<close>
  raises the decoding error and leaves \<^verbatim>\<open>packmol.stdout\<close> empty.
\<close>

theorem packer_exit_status:
  assumes "make_packmol_input wr structures tolerance w = (structures1, w1, None)"
      and "packer (files w1) = (returncode, stdout, stderr, fs)"
  shows "(returncode \<noteq> 0 \<longrightarrow>
            run_packmol packer w1
              = (w1\<lparr>files := fs\<rparr>,
                 Some (ValueError (''Packmol failed with errorcode '' @ str_int returncode
                                   @ '' and stderr: '' @ str_bytes stderr)))
          \<and> packmol wr packer rd structures tolerance w
              = Some (structures1, w1\<lparr>files := fs\<rparr>,
                      Inl (ValueError (''Packmol failed with errorcode '' @ str_int returncode
                                       @ '' and stderr: '' @ str_bytes stderr)))
          \<and> reads (w1\<lparr>files := fs\<rparr>) = reads w)
       \<and> (returncode = 0 \<and> utf8_ok stdout \<longrightarrow>
            run_packmol packer w1 = (w1\<lparr>files := fs(''packmol.stdout'' \<mapsto> Text stdout)\<rparr>, None))
       \<and> (returncode = 0 \<and> \<not> utf8_ok stdout \<longrightarrow>
            run_packmol packer w1
              = (w1\<lparr>files := fs(''packmol.stdout'' \<mapsto> Text [])\<rparr>, Some UnicodeDecodeError)
          \<and> packmol wr packer rd structures tolerance w
              = Some (structures1, w1\<lparr>files := fs(''packmol.stdout'' \<mapsto> Text [])\<rparr>,
                      Inl UnicodeDecodeError))"
proof -
  from assms(1) have "reads w1 = reads w" by (rule make_packmol_input_reads)
  with assms show ?thesis
    by (simp add: run_packmol_def packmol_def decode_def)
qed

theorem packer_exit_status_witness:
  "packmol example_writer failing_packer no_reader [] None empty_world
     = Some ([], generated_world,
             Inl (ValueError (''Packmol failed with errorcode 173 and stderr: b''
                              @ [CHR 0x27] @ ''cannot converge'' @ [CHR 0x27])))
   \<and> reads generated_world = []
   \<and> (\<exists>w2. run_packmol quiet_packer generated_world = (w2, None)
            \<and> files w2 ''packmol.stdout'' = Some (Text ''Success!''))
   \<and> (\<exists>w2. run_packmol garbled_packer generated_world = (w2, Some UnicodeDecodeError)
            \<and> files w2 ''packmol.stdout'' = Some (Text []))"
proof -
  have inp: "make_packmol_input example_writer [] None empty_world = ([], generated_world, None)"
    by (simp add: make_packmol_input_def empty_world_def generated_world_def PACKMOL_OUT_def)
  have p1: "failing_packer (files generated_world)
              = (173, ''some output'', ''cannot converge'', files generated_world)"
    by (simp add: failing_packer_def)
  have p2: "quiet_packer (files generated_world) = (0, ''Success!'', [], files generated_world)"
    by (simp add: quiet_packer_def)
  have p3: "garbled_packer (files generated_world) = (0, [CHR 0xFF], [], files generated_world)"
    by (simp add: garbled_packer_def)
  have s1: "str_int 173 = ''173''"
    by (simp add: str_int_def str_nat.simps digit_char_def)
  have s2: "str_bytes ''cannot converge'' = ''b'' @ [CHR 0x27] @ ''cannot converge'' @ [CHR 0x27]"
    by (simp add: str_bytes_def repr_byte_def Let_def)
  have u2: "utf8_ok ''Success!''" and u3: "\<not> utf8_ok [CHR 0xFF]"
    by simp_all
  from packer_exit_status [where packer = failing_packer and rd = no_reader, OF inp p1] s1 s2
  have a: "packmol example_writer failing_packer no_reader [] None empty_world
     = Some ([], generated_world,
             Inl (ValueError (''Packmol failed with errorcode 173 and stderr: b''
                              @ [CHR 0x27] @ ''cannot converge'' @ [CHR 0x27])))"
    by simp
  from packer_exit_status [where packer = quiet_packer and rd = no_reader, OF inp p2] u2
  have b: "\<exists>w2. run_packmol quiet_packer generated_world = (w2, None)
                \<and> files w2 ''packmol.stdout'' = Some (Text ''Success!'')"
    by simp
  from packer_exit_status [where packer = garbled_packer and rd = no_reader, OF inp p3] u3
  have c: "\<exists>w2. run_packmol garbled_packer generated_world = (w2, Some UnicodeDecodeError)
                \<and> files w2 ''packmol.stdout'' = Some (Text [])"
    by simp
  have d: "reads generated_world = []"
    by (simp add: generated_world_def)
  from a b c d show ?thesis by blast
qed

text \<open>
  C8, as stated, fails: with exit status zero and the single byte 255 on the standard
  output, \<^verbatim>\<open>run_packmol\<close> does not return normally. It raises the decoding error, and the
  log file is empty.
\<close>

theorem garbled_output_raises:
  "run_packmol garbled_packer generated_world
     = (generated_world\<lparr>files := (files generated_world)(''packmol.stdout'' \<mapsto> Text [])\<rparr>,
        Some UnicodeDecodeError)"
  by (simp add: run_packmol_def garbled_packer_def decode_def)

section \<open>Topology reassignment: the bonded lists\<close>

text \<open>The definitions that evaluating \<^verbatim>\<open>reassign_topology\<close> on a concrete input unfolds.\<close>

lemmas eval_defs =
  reassign_topology_def add_required_attributes_def add_required_attr_def attr_names_def
  hasattr_def add_TopologyAttr_def n_atoms_def initial_state_def walk_step_def
  template_at_def atom_resname_def py_int_def parse_digits_def int_max_str_digits_def
  strip_def is_space_def is_digit_def
  digits_val_def digit_val_def py_getitem_def set_resnames_def set_slice_def
  slice_bounds_def n_residues_def setattr_atoms_def offset_indices_def attach_topology_def
  add_TopologyAttr_values_def tuple_size_def

text \<open>
  C1. The values attached as angles are taken from the running list of bonds, not from the
  running list of angles. For one replica of template A, whose only angle is \<open>(0,1,2)\<close>
  and whose bonds are \<open>(0,1)\<close> and \<open>(1,2)\<close>, the two bond pairs are given as angles, which
  the library refuses: \<^verbatim>\<open>reassign_topology\<close> raises. For one replica of template G, which
  has the same angle and no bonds, the angles attached are the empty list. In both runs the
  running list of angles holds \<open>(0,1,2)\<close>, the template's angle at cursor 0.
\<close>

theorem angles_taken_from_bonds:
  "reassign_topology [structure_A] packed_A = Some ([], Inl TupleSizeError)
   \<and> reassign_topology [structure_G] packed_A
       = Some ([], Inr (packed_A\<lparr>resnames := [''GGG''], angles := Some []\<rparr>))
   \<and> offset_indices (angles template_A) 0 = [[0, 1, 2]]
   \<and> offset_indices (angles template_G) 0 = [[0, 1, 2]]"
  by (simp add: eval_defs walk.simps structure_A_def packed_A_def template_A_def
        structure_G_def template_G_def)

section \<open>Topology reassignment: the walk\<close>

lemma walk_rounds_walk:
  "walk_rounds n structures s = Some s1 \<Longrightarrow> walk structures s = walk structures s1"
proof (induction n arbitrary: s)
  case 0
  then show ?case by simp
next
  case (Suc n)
  from Suc.prems have lt: "index s < n_atoms (new_universe s)"
    by (simp split: if_splits)
  from Suc.prems lt obtain s2 where st: "walk_step structures s = Inr s2"
    and r: "walk_rounds n structures s2 = Some s1"
    by (auto split: sum.splits)
  from lt st have "walk structures s = walk structures s2"
    by (subst walk.simps) simp
  with Suc.IH [OF r] show ?case by simp
qed

lemma walk_rounds_Suc:
  "index s < n_atoms (new_universe s) \<Longrightarrow> walk_step structures s = Inr s1
     \<Longrightarrow> walk_rounds (Suc n) structures s = walk_rounds n structures s1"
  by simp

lemma set_resnames_resindices:
  "set_resnames g lo hi vals = Inr g1 \<Longrightarrow> resindices g1 = resindices g \<and> attrs g1 = attrs g"
  by (auto simp: set_resnames_def split: sum.splits)

lemma setattr_atoms_resindices:
  "setattr_atoms g a lo hi vals = Inr g1 \<Longrightarrow> resindices g1 = resindices g \<and> resnames g1 = resnames g"
  by (auto simp: setattr_atoms_def split: sum.splits option.splits)

lemma set_attrs_resindices:
  "set_attrs as g lo hi template = Inr g1 \<Longrightarrow> resindices g1 = resindices g \<and> resnames g1 = resnames g"
proof (induction as arbitrary: g)
  case Nil
  then show ?case by simp
next
  case (Cons a as)
  show ?case
  proof (cases "attrs template a")
    case None
    with Cons show ?thesis by simp
  next
    case (Some vals)
    with Cons.prems obtain g2 where g2: "setattr_atoms g a lo hi vals = Inr g2"
      and rest: "set_attrs as g2 lo hi template = Inr g1"
      by (auto split: sum.splits)
    from Cons.IH [OF rest] setattr_atoms_resindices [OF g2] show ?thesis by simp
  qed
qed

lemma walk_step_Inr:
  assumes "walk_step structures s = Inr s1"
  obtains template g1 where "template_at structures s = Inr template"
    and "set_resnames (new_universe s) (resindices (new_universe s) ! index s)
           (resindices (new_universe s) ! index s + n_residues template) (resnames template) = Inr g1"
    and "set_attrs attr_names g1 (index s) (index s + n_atoms template) template = Inr (new_universe s1)"
    and "index s1 = index s + n_atoms template"
    and "bonds_acc s1 = bonds_acc s @ offset_indices (bonds template) (index s)"
    and "angles_acc s1 = angles_acc s @ offset_indices (angles template) (index s)"
    and "dihedrals_acc s1 = dihedrals_acc s @ offset_indices (dihedrals template) (index s)"
    and "impropers_acc s1 = impropers_acc s @ offset_indices (impropers template) (index s)"
  using assms by (auto simp: walk_step_def Let_def split: sum.splits)

lemma walk_step_n_atoms:
  assumes "walk_step structures s = Inr s1"
  shows "n_atoms (new_universe s1) = n_atoms (new_universe s)"
proof -
  from assms obtain template g1 where
    a: "set_resnames (new_universe s) (resindices (new_universe s) ! index s)
           (resindices (new_universe s) ! index s + n_residues template) (resnames template) = Inr g1"
    and b: "set_attrs attr_names g1 (index s) (index s + n_atoms template) template = Inr (new_universe s1)"
    by (rule walk_step_Inr)
  from set_resnames_resindices [OF a] set_attrs_resindices [OF b] show ?thesis
    by (simp add: n_atoms_def)
qed

lemma walk_terminates_from:
  assumes "\<forall>n s1 template. walk_rounds n structures s = Some s1
              \<and> index s1 < n_atoms (new_universe s1) \<and> template_at structures s1 = Inr template
              \<longrightarrow> 0 < n_atoms template"
  shows "\<exists>r. walk structures s = Some r"
  using assms
proof (induction "n_atoms (new_universe s) - index s" arbitrary: s rule: less_induct)
  case less
  show ?case
  proof (cases "index s < n_atoms (new_universe s)")
    case False
    then show ?thesis by (subst walk.simps) simp
  next
    case True
    show ?thesis
    proof (cases "walk_step structures s")
      case (Inl e)
      with True show ?thesis by (subst walk.simps) simp
    next
      case (Inr s1)
      then obtain template where t: "template_at structures s = Inr template"
        and i: "index s1 = index s + n_atoms template"
        by (rule walk_step_Inr)
      have "walk_rounds 0 structures s = Some s" by simp
      with less.prems True t have pos: "0 < n_atoms template" by blast
      from Inr have n: "n_atoms (new_universe s1) = n_atoms (new_universe s)"
        by (rule walk_step_n_atoms)
      from pos i n True have m: "n_atoms (new_universe s1) - index s1 < n_atoms (new_universe s) - index s"
        by arith
      have "\<forall>n s2 template. walk_rounds n structures s1 = Some s2
              \<and> index s2 < n_atoms (new_universe s2) \<and> template_at structures s2 = Inr template
              \<longrightarrow> 0 < n_atoms template"
      proof (intro allI impI)
        fix n s2 template
        assume h: "walk_rounds n structures s1 = Some s2
              \<and> index s2 < n_atoms (new_universe s2) \<and> template_at structures s2 = Inr template"
        with True Inr have "walk_rounds (Suc n) structures s = Some s2" by simp
        with less.prems h show "0 < n_atoms template" by blast
      qed
      from less.hyps [OF m this] obtain r where "walk structures s1 = Some r" ..
      moreover from True Inr have "walk structures s = walk structures s1"
        by (subst walk.simps) simp
      ultimately show ?thesis by simp
    qed
  qed
qed

lemma attr_names_all: "a \<in> set attr_names"
  by (cases a) (simp_all add: attr_names_def)

lemma set_resnames_empty: "set_resnames g r r [] = Inr g"
  by (simp add: set_resnames_def set_slice_def slice_bounds_def Let_def)

lemma setattr_atoms_empty: "setattr_atoms g a i i [] = Inr g"
proof (cases "attrs g a")
  case None
  then show ?thesis by (simp add: setattr_atoms_def)
next
  case (Some cur)
  then have "(attrs g)(a \<mapsto> cur) = attrs g" by (simp add: fun_upd_idem)
  with Some show ?thesis
    by (simp add: setattr_atoms_def set_slice_def slice_bounds_def Let_def)
qed

lemma set_attrs_empty:
  "\<forall>a \<in> set as. \<forall>vals. attrs template a = Some vals \<longrightarrow> vals = []
     \<Longrightarrow> set_attrs as g i i template = Inr g"
proof (induction as)
  case Nil
  then show ?case by simp
next
  case (Cons a as)
  then show ?case
    by (cases "attrs template a") (simp_all add: setattr_atoms_empty)
qed

lemma empty_group_step:
  assumes "template_at structures s = Inr template" and "empty_group template"
  shows "\<exists>s1. walk_step structures s = Inr s1 \<and> new_universe s1 = new_universe s \<and> index s1 = index s"
proof -
  from assms(2) have n: "n_atoms template = 0" "n_residues template = 0" "resnames template = []"
    by (simp_all add: empty_group_def n_atoms_def n_residues_def)
  from assms(2) have "\<forall>a \<in> set attr_names. \<forall>vals. attrs template a = Some vals \<longrightarrow> vals = []"
    by (auto simp: empty_group_def list_all_iff)
  then have "set_attrs attr_names (new_universe s) (index s) (index s) template = Inr (new_universe s)"
    by (rule set_attrs_empty)
  with assms(1) n set_resnames_empty [of "new_universe s" "resindices (new_universe s) ! index s"]
  show ?thesis
    by (simp add: walk_step_def Let_def)
qed

lemma template_at_cong:
  "new_universe s1 = new_universe s \<Longrightarrow> index s1 = index s
     \<Longrightarrow> template_at structures s1 = template_at structures s"
  by (simp add: template_at_def)

lemma walk_stuck_aux:
  assumes "walk structures s = Some r"
  shows "\<not> (index s < n_atoms (new_universe s)
        \<and> (\<exists>template. template_at structures s = Inr template \<and> empty_group template))"
proof (rule walk.raw_induct [where P = "\<lambda>structures s r. \<not> (index s < n_atoms (new_universe s)
        \<and> (\<exists>template. template_at structures s = Inr template \<and> empty_group template))",
        OF _ assms])
  fix walk' :: "packmol_structure list \<Rightarrow> walk_state \<Rightarrow> (py_error + walk_state) option"
  fix structures s r
  assume IH: "\<And>structures s r. walk' structures s = Some r \<Longrightarrow>
            \<not> (index s < n_atoms (new_universe s)
        \<and> (\<exists>template. template_at structures s = Inr template \<and> empty_group template))"
    and eq: "(if index s < n_atoms (new_universe s)
              then case walk_step structures s of Inl e \<Rightarrow> Some (Inl e)
                   | Inr s1 \<Rightarrow> walk' structures s1
              else Some (Inr s)) = Some r"
  show "\<not> (index s < n_atoms (new_universe s)
        \<and> (\<exists>template. template_at structures s = Inr template \<and> empty_group template))"
  proof
    assume st: "index s < n_atoms (new_universe s)
        \<and> (\<exists>template. template_at structures s = Inr template \<and> empty_group template)"
    then obtain template where t: "template_at structures s = Inr template" and e: "empty_group template"
      by blast
    from empty_group_step [OF t e] obtain s1 where s1: "walk_step structures s = Inr s1"
      and u: "new_universe s1 = new_universe s" and i: "index s1 = index s"
      by blast
    from st s1 eq have "walk' structures s1 = Some r" by simp
    from IH [OF this] st u i t e template_at_cong [OF u i, of structures]
    show False by simp
  qed
qed

lemma walk_stuck:
  assumes "index s < n_atoms (new_universe s)"
      and "template_at structures s = Inr template" and "empty_group template"
  shows "walk structures s = None"
proof (cases "walk structures s")
  case None
  then show ?thesis .
next
  case (Some r)
  from walk_stuck_aux [OF this] assms show ?thesis by blast
qed

lemma template_at_in_set:
  "template_at structures s = Inr template \<Longrightarrow> \<exists>pms \<in> set structures. template = ag pms"
  by (auto simp: template_at_def py_getitem_def split: sum.splits if_splits)

text \<open>
  C9. Take the walk of \<^verbatim>\<open>reassign_topology\<close> from the universe with the required attributes
  added. If at every cursor position the walk gets to, the template that the label names has
  at least one atom, then \<^verbatim>\<open>reassign_topology\<close> ends (returning or raising). If at some
  cursor position the template that the label names is an empty atom group, then that round
  leaves the cursor where it is, and \<^verbatim>\<open>reassign_topology\<close> does not end.
\<close>

theorem walk_termination:
  assumes "add_required_attributes structures new0 = (new1, warns)"
  shows "((\<forall>n s template. walk_rounds n structures (initial_state new1) = Some s
              \<and> index s < n_atoms (new_universe s) \<and> template_at structures s = Inr template
              \<longrightarrow> 0 < n_atoms template)
           \<longrightarrow> (\<exists>r. reassign_topology structures new0 = Some r))
       \<and> (\<forall>n s template. walk_rounds n structures (initial_state new1) = Some s
              \<and> index s < n_atoms (new_universe s) \<and> template_at structures s = Inr template
              \<and> empty_group template
              \<longrightarrow> (\<exists>s1. walk_step structures s = Inr s1 \<and> index s1 = index s)
                  \<and> reassign_topology structures new0 = None)"
proof (intro conjI impI allI)
  assume "\<forall>n s template. walk_rounds n structures (initial_state new1) = Some s
              \<and> index s < n_atoms (new_universe s) \<and> template_at structures s = Inr template
              \<longrightarrow> 0 < n_atoms template"
  then obtain r where "walk structures (initial_state new1) = Some r"
    using walk_terminates_from by blast
  with assms show "\<exists>r. reassign_topology structures new0 = Some r"
    by (cases r) (simp_all add: reassign_topology_def)
next
  fix n s template
  assume h: "walk_rounds n structures (initial_state new1) = Some s
              \<and> index s < n_atoms (new_universe s) \<and> template_at structures s = Inr template
              \<and> empty_group template"
  with empty_group_step show "\<exists>s1. walk_step structures s = Inr s1 \<and> index s1 = index s"
    by blast
next
  fix n s template
  assume h: "walk_rounds n structures (initial_state new1) = Some s
              \<and> index s < n_atoms (new_universe s) \<and> template_at structures s = Inr template
              \<and> empty_group template"
  then have "walk structures s = None" using walk_stuck by blast
  moreover from h have "walk structures (initial_state new1) = walk structures s"
    using walk_rounds_walk by blast
  ultimately show "reassign_topology structures new0 = None"
    using assms by (simp add: reassign_topology_def)
qed

theorem walk_termination_witness:
  "(\<exists>r. reassign_topology [structure_A] packed_A = Some r)
   \<and> reassign_topology [structure_E] packed_single = None"
proof -
  have a: "add_required_attributes [structure_A] packed_A = (packed_A, [])"
    by (simp add: add_required_attributes_def add_required_attr_def attr_names_def hasattr_def
          structure_A_def template_A_def)
  have pos: "\<forall>n s template. walk_rounds n [structure_A] (initial_state packed_A) = Some s
              \<and> index s < n_atoms (new_universe s) \<and> template_at [structure_A] s = Inr template
              \<longrightarrow> 0 < n_atoms template"
  proof (intro allI impI)
    fix n s template
    assume "walk_rounds n [structure_A] (initial_state packed_A) = Some s
              \<and> index s < n_atoms (new_universe s) \<and> template_at [structure_A] s = Inr template"
    then have "template = template_A"
      using template_at_in_set [of "[structure_A]" s template] by (simp add: structure_A_def)
    then show "0 < n_atoms template"
      by (simp add: template_A_def n_atoms_def)
  qed
  have e: "add_required_attributes [structure_E] packed_single = (packed_single, [])"
    by (simp add: add_required_attributes_def add_required_attr_def attr_names_def hasattr_def
          structure_E_def template_E_def)
  have r0: "walk_rounds 0 [structure_E] (initial_state packed_single) = Some (initial_state packed_single)"
    by simp
  have c: "index (initial_state packed_single) < n_atoms (new_universe (initial_state packed_single))"
    by (simp add: initial_state_def packed_single_def n_atoms_def)
  have t: "template_at [structure_E] (initial_state packed_single) = Inr template_E"
    by (simp add: template_at_def initial_state_def packed_single_def atom_resname_def py_int_def
          parse_digits_def int_max_str_digits_def
          strip_def is_space_def is_digit_def digits_val_def digit_val_def py_getitem_def
          structure_E_def)
  have g: "empty_group template_E"
    by (simp add: empty_group_def template_E_def attr_names_def)
  from walk_termination [OF a] pos have "\<exists>r. reassign_topology [structure_A] packed_A = Some r"
    by blast
  moreover from walk_termination [OF e] r0 c t g
  have "reassign_topology [structure_E] packed_single = None"
    by blast
  ultimately show ?thesis by simp
qed

section \<open>Topology reassignment: malformed labels\<close>

lemma py_int_error: "py_int l = Inl e \<Longrightarrow> e = IntParseError"
  by (auto simp: py_int_def parse_digits_def split: list.splits if_splits)

lemma py_getitem_error:
  "\<not> (- int (length xs) \<le> t \<and> t < int (length xs)) \<Longrightarrow> py_getitem xs t = Inl IndexError"
  by (auto simp: py_getitem_def)

text \<open>
  C10. At a cursor position that the walk gets to: when the residue name of the atom there,
  without its first character, is not a decimal integer, \<^verbatim>\<open>reassign_topology\<close> raises the
  error of \<^verbatim>\<open>int\<close>; when it is an integer outside the index range of the descriptor list,
  \<^verbatim>\<open>reassign_topology\<close> raises the index error of the list. No structure is returned.
\<close>

theorem malformed_label_raises:
  assumes "add_required_attributes structures new0 = (new1, warns)"
      and "walk_rounds n structures (initial_state new1) = Some s"
      and "index s < n_atoms (new_universe s)"
  shows "((\<exists>e. py_int (drop 1 (atom_resname (new_universe s) (index s))) = Inl e)
            \<longrightarrow> reassign_topology structures new0 = Some (warns, Inl IntParseError))
       \<and> (\<forall>t. py_int (drop 1 (atom_resname (new_universe s) (index s))) = Inr t
               \<and> \<not> (- int (length structures) \<le> t \<and> t < int (length structures))
            \<longrightarrow> reassign_topology structures new0 = Some (warns, Inl IndexError))"
proof -
  from assms(2) have w: "walk structures (initial_state new1) = walk structures s"
    by (rule walk_rounds_walk)
  have a: "reassign_topology structures new0 = Some (warns, Inl IntParseError)"
    if "py_int (drop 1 (atom_resname (new_universe s) (index s))) = Inl e" for e
  proof -
    from that have "e = IntParseError" by (rule py_int_error)
    with that have "walk_step structures s = Inl IntParseError"
      by (simp add: walk_step_def template_at_def)
    with assms(3) have "walk structures s = Some (Inl IntParseError)"
      by (subst walk.simps) simp
    with w assms(1) show ?thesis by (simp add: reassign_topology_def)
  qed
  have b: "reassign_topology structures new0 = Some (warns, Inl IndexError)"
    if "py_int (drop 1 (atom_resname (new_universe s) (index s))) = Inr t"
      and "\<not> (- int (length structures) \<le> t \<and> t < int (length structures))" for t
  proof -
    from that(2) have "py_getitem structures t = Inl IndexError" by (rule py_getitem_error)
    with that(1) have "walk_step structures s = Inl IndexError"
      by (simp add: walk_step_def template_at_def)
    with assms(3) have "walk structures s = Some (Inl IndexError)"
      by (subst walk.simps) simp
    with w assms(1) show ?thesis by (simp add: reassign_topology_def)
  qed
  from a b show ?thesis by blast
qed

theorem malformed_label_raises_witness:
  "reassign_topology [structure_A] packed_bad_label = Some ([], Inl IntParseError)
   \<and> reassign_topology [structure_A] packed_ctrl_label = Some ([], Inl IntParseError)
   \<and> reassign_topology [structure_A] packed_bad_index = Some ([], Inl IndexError)"
proof -
  let ?s3 = "\<lparr>new_universe = packed_ctrl_label\<lparr>resnames := [''AAA'', [CHR ''R'', CHR 0x1C, CHR ''0'']]\<rparr>,
               index = 3, bonds_acc = [[0, 1], [1, 2]], angles_acc = [[0, 1, 2]],
               dihedrals_acc = [], impropers_acc = []\<rparr>"
  have a3: "add_required_attributes [structure_A] packed_ctrl_label = (packed_ctrl_label, [])"
    by (simp add: eval_defs structure_A_def template_A_def)
  have r3: "walk_rounds 1 [structure_A] (initial_state packed_ctrl_label) = Some ?s3"
    by (simp add: eval_defs structure_A_def template_A_def packed_ctrl_label_def)
  have c3: "index ?s3 < n_atoms (new_universe ?s3)"
    by (simp add: n_atoms_def packed_ctrl_label_def)
  have p3: "\<exists>e. py_int (drop 1 (atom_resname (new_universe ?s3) (index ?s3))) = Inl e"
    by (simp add: eval_defs packed_ctrl_label_def)
  from malformed_label_raises [OF a3 r3 c3] p3
  have third: "reassign_topology [structure_A] packed_ctrl_label = Some ([], Inl IntParseError)"
    by blast
  let ?s1 = "\<lparr>new_universe = packed_bad_label\<lparr>resnames := [''AAA'', ''RX'']\<rparr>, index = 3,
               bonds_acc = [[0, 1], [1, 2]], angles_acc = [[0, 1, 2]],
               dihedrals_acc = [], impropers_acc = []\<rparr>"
  let ?s2 = "\<lparr>new_universe = packed_bad_index\<lparr>resnames := [''AAA'', ''R5'']\<rparr>, index = 3,
               bonds_acc = [[0, 1], [1, 2]], angles_acc = [[0, 1, 2]],
               dihedrals_acc = [], impropers_acc = []\<rparr>"
  have a1: "add_required_attributes [structure_A] packed_bad_label = (packed_bad_label, [])"
    by (simp add: eval_defs structure_A_def template_A_def)
  have r1: "walk_rounds 1 [structure_A] (initial_state packed_bad_label) = Some ?s1"
    by (simp add: eval_defs structure_A_def template_A_def packed_bad_label_def)
  have c1: "index ?s1 < n_atoms (new_universe ?s1)"
    by (simp add: n_atoms_def packed_bad_label_def)
  have p1: "\<exists>e. py_int (drop 1 (atom_resname (new_universe ?s1) (index ?s1))) = Inl e"
    by (simp add: eval_defs packed_bad_label_def)
  have a2: "add_required_attributes [structure_A] packed_bad_index = (packed_bad_index, [])"
    by (simp add: eval_defs structure_A_def template_A_def)
  have r2: "walk_rounds 1 [structure_A] (initial_state packed_bad_index) = Some ?s2"
    by (simp add: eval_defs structure_A_def template_A_def packed_bad_index_def)
  have c2: "index ?s2 < n_atoms (new_universe ?s2)"
    by (simp add: n_atoms_def packed_bad_index_def)
  have p2: "py_int (drop 1 (atom_resname (new_universe ?s2) (index ?s2))) = Inr 5
            \<and> \<not> (- int (length [structure_A]) \<le> 5 \<and> 5 < int (length [structure_A]))"
    by (simp add: eval_defs packed_bad_index_def)
  from malformed_label_raises [OF a1 r1 c1] p1
  have "reassign_topology [structure_A] packed_bad_label = Some ([], Inl IntParseError)"
    by blast
  moreover from malformed_label_raises [OF a2 r2 c2] p2
  have "reassign_topology [structure_A] packed_bad_index = Some ([], Inl IndexError)"
    by blast
  ultimately show ?thesis using third by simp
qed

section \<open>Topology reassignment: assignments to slices\<close>

subsection \<open>Slices\<close>

lemma set_slice_error: "set_slice n xs lo hi vals = Inl e \<Longrightarrow> e = LengthError"
  by (auto simp: set_slice_def split: prod.splits if_splits)

lemma set_slice_length:
  assumes "set_slice n xs lo hi vals = Inr ys" and "length xs = n"
  shows "length ys = n"
proof -
  obtain a b where ab: "slice_bounds n lo hi = (a, b)" by (cases "slice_bounds n lo hi")
  then have le: "a \<le> b" "b \<le> n" by (auto simp: slice_bounds_def Let_def)
  from assms ab have "length vals = b - a" and "ys = take a xs @ vals @ drop b xs"
    by (auto simp: set_slice_def split: if_splits)
  with le assms(2) show ?thesis by simp
qed

lemma set_slice_nth:
  assumes "set_slice n xs lo hi vals = Inr ys" and "length xs = n"
      and "i < n" and "i < lo \<or> hi \<le> i"
  shows "ys ! i = xs ! i"
proof -
  obtain a b where ab: "slice_bounds n lo hi = (a, b)" by (cases "slice_bounds n lo hi")
  then have le: "a \<le> b" "b \<le> n" and a: "a = min lo n" and b: "b = max a (min hi n)"
    by (auto simp: slice_bounds_def Let_def)
  from assms ab have len: "length vals = b - a" and ys: "ys = take a xs @ vals @ drop b xs"
    by (auto simp: set_slice_def split: if_splits)
  show ?thesis
  proof (cases "i < a")
    case True
    with ys assms(2) le show ?thesis by (simp add: nth_append)
  next
    case False
    with a assms(3,4) have "hi \<le> i" by auto
    with False b assms(3) have bi: "b \<le> i" by auto
    with le len assms(2) have "ys ! i = (vals @ drop b xs) ! (i - a)"
      using False by (simp add: ys nth_append)
    also have "\<dots> = (drop b xs) ! (i - b)"
    proof -
      from bi le len have "\<not> i - a < length vals" and "i - a - length vals = i - b"
        by arith+
      then show ?thesis by (simp add: nth_append)
    qed
    also from bi assms(2,3) have "\<dots> = xs ! i" by simp
    finally show ?thesis .
  qed
qed

lemma set_slice_overrun:
  assumes "lo < n" and "n - lo < length vals"
  shows "set_slice n xs lo hi vals = Inl LengthError"
proof -
  obtain a b where ab: "slice_bounds n lo hi = (a, b)" by (cases "slice_bounds n lo hi")
  with assms(1) have "a = lo" "b \<le> n" by (auto simp: slice_bounds_def Let_def)
  with assms(2) have "length vals \<noteq> b - a" by arith
  with ab show ?thesis by (simp add: set_slice_def)
qed

subsection \<open>Setting attributes\<close>

lemma set_resnames_error: "set_resnames g lo hi vals = Inl e \<Longrightarrow> e = LengthError"
  by (auto simp: set_resnames_def split: sum.splits dest: set_slice_error)

lemma setattr_atoms_error: "setattr_atoms g a lo hi vals = Inl e \<Longrightarrow> e = LengthError"
  by (auto simp: setattr_atoms_def split: sum.splits option.splits dest: set_slice_error)

lemma set_attrs_error: "set_attrs as g lo hi template = Inl e \<Longrightarrow> e = LengthError"
proof (induction as arbitrary: g)
  case Nil
  then show ?case by simp
next
  case (Cons a as)
  then show ?case
    by (auto split: option.splits sum.splits dest: setattr_atoms_error)
qed

lemma walk_step_error:
  "walk_step structures s = Inl e \<Longrightarrow> template_at structures s = Inr template \<Longrightarrow> e = LengthError"
  by (auto simp: walk_step_def Let_def split: sum.splits
           dest: set_resnames_error set_attrs_error)

text \<open>What one assignment does to the array of an attribute.\<close>

lemma setattr_atoms_array:
  assumes "setattr_atoms g b lo hi v = Inr g1"
      and "attrs g a = Some vals" and "length vals = n_atoms g"
  shows "\<exists>vals1. attrs g1 a = Some vals1 \<and> length vals1 = length vals
           \<and> (\<forall>i < length vals. i < lo \<or> hi \<le> i \<longrightarrow> vals1 ! i = vals ! i)"
proof (cases "b = a")
  case False
  with assms show ?thesis
    by (auto simp: setattr_atoms_def split: sum.splits option.splits)
next
  case True
  with assms obtain cur1 where s: "set_slice (n_atoms g) vals lo hi v = Inr cur1"
    and g1: "attrs g1 a = Some cur1"
    by (auto simp: setattr_atoms_def split: sum.splits)
  from set_slice_length [OF s assms(3)] set_slice_nth [OF s assms(3)] g1 assms(3)
  show ?thesis by auto
qed

lemma setattr_atoms_n_atoms: "setattr_atoms g b lo hi v = Inr g1 \<Longrightarrow> n_atoms g1 = n_atoms g"
  by (auto simp: n_atoms_def dest: setattr_atoms_resindices)

lemma setattr_atoms_other:
  "setattr_atoms g b lo hi v = Inr g1 \<Longrightarrow> b \<noteq> a \<Longrightarrow> attrs g1 a = attrs g a"
  by (auto simp: setattr_atoms_def split: sum.splits option.splits)

lemma set_attrs_array:
  assumes "set_attrs as g lo hi template = Inr g1"
      and "attrs g a = Some vals" and "length vals = n_atoms g"
  shows "\<exists>vals1. attrs g1 a = Some vals1 \<and> length vals1 = length vals
           \<and> (\<forall>i < length vals. i < lo \<or> hi \<le> i \<longrightarrow> vals1 ! i = vals ! i)"
  using assms
proof (induction as arbitrary: g vals)
  case Nil
  then show ?case by simp
next
  case (Cons b as)
  show ?case
  proof (cases "attrs template b")
    case None
    with Cons.prems have "set_attrs as g lo hi template = Inr g1" by simp
    from Cons.IH [OF this Cons.prems(2,3)] show ?thesis .
  next
    case (Some v)
    with Cons.prems obtain g2 where g2: "setattr_atoms g b lo hi v = Inr g2"
      and rest: "set_attrs as g2 lo hi template = Inr g1"
      by (auto split: sum.splits)
    from setattr_atoms_array [OF g2 Cons.prems(2,3)] obtain vals2
      where v2: "attrs g2 a = Some vals2" "length vals2 = length vals"
        and same2: "\<forall>i < length vals. i < lo \<or> hi \<le> i \<longrightarrow> vals2 ! i = vals ! i"
      by blast
    from setattr_atoms_n_atoms [OF g2] v2 Cons.prems(3) have l2: "length vals2 = n_atoms g2"
      by simp
    from Cons.IH [OF rest v2(1) l2] obtain vals1
      where v1: "attrs g1 a = Some vals1" "length vals1 = length vals2"
        and same1: "\<forall>i < length vals2. i < lo \<or> hi \<le> i \<longrightarrow> vals1 ! i = vals2 ! i"
      by blast
    from v1 v2 same1 same2 show ?thesis by auto
  qed
qed

lemma set_attrs_other:
  assumes "set_attrs as g lo hi template = Inr g1" and "attrs template a = None"
  shows "attrs g1 a = attrs g a"
  using assms
proof (induction as arbitrary: g)
  case Nil
  then show ?case by simp
next
  case (Cons b as)
  show ?case
  proof (cases "attrs template b")
    case None
    with Cons show ?thesis by simp
  next
    case (Some v)
    with Cons.prems obtain g2 where g2: "setattr_atoms g b lo hi v = Inr g2"
      and rest: "set_attrs as g2 lo hi template = Inr g1"
      by (auto split: sum.splits)
    from Some Cons.prems(2) have "b \<noteq> a" by auto
    from setattr_atoms_other [OF g2 this] Cons.IH [OF rest Cons.prems(2)] show ?thesis by simp
  qed
qed

lemma set_attrs_overrun:
  assumes "a \<in> set as" and "attrs template a = Some v" and "attrs g a = Some cur"
      and "length cur = n_atoms g" and "lo < n_atoms g" and "n_atoms g - lo < length v"
  shows "set_attrs as g lo hi template = Inl LengthError"
  using assms
proof (induction as arbitrary: g cur)
  case Nil
  then show ?case by simp
next
  case (Cons b as)
  show ?case
  proof (cases "b = a")
    case True
    from Cons.prems(3,5,6) have "setattr_atoms g a lo hi v = Inl LengthError"
      by (simp add: setattr_atoms_def set_slice_overrun)
    with True Cons.prems(2) show ?thesis by simp
  next
    case False
    with Cons.prems(1) have mem: "a \<in> set as" by simp
    show ?thesis
    proof (cases "attrs template b")
      case None
      with Cons.IH [OF mem Cons.prems(2-6)] show ?thesis by simp
    next
      case (Some w)
      show ?thesis
      proof (cases "setattr_atoms g b lo hi w")
        case (Inl e)
        with setattr_atoms_error [OF Inl] Some show ?thesis by simp
      next
        case (Inr g2)
        from setattr_atoms_other [OF Inr False] Cons.prems(3) have c2: "attrs g2 a = Some cur" by simp
        from setattr_atoms_n_atoms [OF Inr] have n2: "n_atoms g2 = n_atoms g" .
        from Cons.IH [OF mem Cons.prems(2) c2] n2 Cons.prems(4-6)
        have "set_attrs as g2 lo hi template = Inl LengthError" by simp
        with Some Inr show ?thesis by simp
      qed
    qed
  qed
qed

section \<open>Topology reassignment: invariants of the walk\<close>

subsection \<open>Adding the required attributes\<close>

lemma add_required_fold:
  assumes "fold (add_required_attr structures) as (g, w) = (g1, w1)"
  shows "resindices g1 = resindices g \<and> resnames g1 = resnames g
       \<and> attrs g1 a = (if a \<in> set as \<and> list_ex (\<lambda>pms. hasattr (ag pms) a) structures
                       then Some (replicate (n_atoms g) (blank a)) else attrs g a)
       \<and> w1 = w @ replicate (length (filter (\<lambda>a. list_ex (\<lambda>pms. hasattr (ag pms) a) structures
                                \<and> \<not> list_all (\<lambda>pms. hasattr (ag pms) a) structures) as))
                     ''added attribute which not all templates had''"
  using assms
proof (induction as arbitrary: g w)
  case Nil
  then show ?case by simp
next
  case (Cons b as)
  obtain g2 w2 where step: "add_required_attr structures b (g, w) = (g2, w2)"
    by (cases "add_required_attr structures b (g, w)")
  with Cons.prems have rest: "fold (add_required_attr structures) as (g2, w2) = (g1, w1)"
    by simp
  note IH = Cons.IH [OF rest]
  show ?case
  proof (cases "list_ex (\<lambda>pms. hasattr (ag pms) b) structures")
    case False
    with step have "g2 = g" "w2 = w" by (simp_all add: add_required_attr_def)
    with IH False show ?thesis by auto
  next
    case True
    with step have g2: "g2 = add_TopologyAttr b g"
      and w2: "w2 = (if \<not> list_all (\<lambda>pms. hasattr (ag pms) b) structures
                     then w @ [''added attribute which not all templates had''] else w)"
      by (simp_all add: add_required_attr_def)
    from g2 have f: "resindices g2 = resindices g" "resnames g2 = resnames g" "n_atoms g2 = n_atoms g"
      "attrs g2 b = Some (replicate (n_atoms g) (blank b))" "\<And>c. c \<noteq> b \<Longrightarrow> attrs g2 c = attrs g c"
      by (simp_all add: add_TopologyAttr_def n_atoms_def)
    show ?thesis
    proof (cases "a = b")
      case True
      with IH f w2 \<open>list_ex (\<lambda>pms. hasattr (ag pms) b) structures\<close> show ?thesis
        by (auto simp: replicate_append_same)
    next
      case False
      with IH f w2 \<open>list_ex (\<lambda>pms. hasattr (ag pms) b) structures\<close> show ?thesis
        by (auto simp: replicate_append_same)
    qed
  qed
qed

lemma add_required_attributes_result:
  assumes "add_required_attributes structures new0 = (new1, warns)"
  shows "resindices new1 = resindices new0" and "resnames new1 = resnames new0"
    and "attrs new1 a = (if list_ex (\<lambda>pms. hasattr (ag pms) a) structures
                         then Some (replicate (n_atoms new0) (blank a)) else attrs new0 a)"
    and "warns = replicate (length (filter (\<lambda>a. list_ex (\<lambda>pms. hasattr (ag pms) a) structures
                                \<and> \<not> list_all (\<lambda>pms. hasattr (ag pms) a) structures) attr_names))
                     ''added attribute which not all templates had''"
  using add_required_fold [OF assms [unfolded add_required_attributes_def], of a] attr_names_all [of a]
  by simp_all

subsection \<open>Rounds of the walk\<close>

lemma walk_Some_rounds:
  assumes "walk structures s = Some r"
  shows "\<forall>sf. r = Inr sf \<longrightarrow>
           (\<exists>n. walk_rounds n structures s = Some sf \<and> \<not> index sf < n_atoms (new_universe sf))"
proof (rule walk.raw_induct [where P = "\<lambda>structures s r. \<forall>sf. r = Inr sf \<longrightarrow>
           (\<exists>n. walk_rounds n structures s = Some sf \<and> \<not> index sf < n_atoms (new_universe sf))",
        OF _ assms])
  fix walk' :: "packmol_structure list \<Rightarrow> walk_state \<Rightarrow> (py_error + walk_state) option"
  fix structures s r
  assume IH: "\<And>structures s r. walk' structures s = Some r \<Longrightarrow> \<forall>sf. r = Inr sf \<longrightarrow>
           (\<exists>n. walk_rounds n structures s = Some sf \<and> \<not> index sf < n_atoms (new_universe sf))"
    and eq: "(if index s < n_atoms (new_universe s)
              then case walk_step structures s of Inl e \<Rightarrow> Some (Inl e)
                   | Inr s1 \<Rightarrow> walk' structures s1
              else Some (Inr s)) = Some r"
  show "\<forall>sf. r = Inr sf \<longrightarrow>
           (\<exists>n. walk_rounds n structures s = Some sf \<and> \<not> index sf < n_atoms (new_universe sf))"
  proof (intro allI impI)
    fix sf
    assume r: "r = Inr sf"
    show "\<exists>n. walk_rounds n structures s = Some sf \<and> \<not> index sf < n_atoms (new_universe sf)"
    proof (cases "index s < n_atoms (new_universe s)")
      case False
      with eq r have "sf = s" by simp
      with False have "walk_rounds 0 structures s = Some sf \<and> \<not> index sf < n_atoms (new_universe sf)"
        by simp
      then show ?thesis ..
    next
      case True
      show ?thesis
      proof (cases "walk_step structures s")
        case (Inl e)
        with True eq r show ?thesis by simp
      next
        case (Inr s1)
        with True eq have "walk' structures s1 = Some r" by simp
        from IH [OF this] r obtain n
          where "walk_rounds n structures s1 = Some sf" "\<not> index sf < n_atoms (new_universe sf)"
          by blast
        with True Inr
        have "walk_rounds (Suc n) structures s = Some sf \<and> \<not> index sf < n_atoms (new_universe sf)"
          by simp
        then show ?thesis ..
      qed
    qed
  qed
qed

lemma walk_step_index:
  "walk_step structures s = Inr s1 \<Longrightarrow> index s \<le> index s1"
  by (erule walk_step_Inr) simp

lemma walk_step_array:
  assumes "walk_step structures s = Inr s1"
      and "attrs (new_universe s) a = Some vals" and "length vals = n_atoms (new_universe s)"
  shows "\<exists>vals1. attrs (new_universe s1) a = Some vals1 \<and> length vals1 = length vals
           \<and> (\<forall>i < length vals. i < index s \<or> index s1 \<le> i \<longrightarrow> vals1 ! i = vals ! i)"
proof -
  from assms(1) obtain template g1 where
    a: "set_resnames (new_universe s) (resindices (new_universe s) ! index s)
           (resindices (new_universe s) ! index s + n_residues template) (resnames template) = Inr g1"
    and b: "set_attrs attr_names g1 (index s) (index s + n_atoms template) template = Inr (new_universe s1)"
    and i: "index s1 = index s + n_atoms template"
    by (rule walk_step_Inr)
  from set_resnames_resindices [OF a] assms(2,3)
  have "attrs g1 a = Some vals" "length vals = n_atoms g1"
    by (simp_all add: n_atoms_def)
  from set_attrs_array [OF b this] i show ?thesis by simp
qed

lemma walk_step_lacking:
  assumes "walk_step structures s = Inr s1"
      and "template_at structures s = Inr template" and "attrs template a = None"
  shows "attrs (new_universe s1) a = attrs (new_universe s) a"
proof -
  from assms(1) obtain template1 g1 where
    t: "template_at structures s = Inr template1"
    and a: "set_resnames (new_universe s) (resindices (new_universe s) ! index s)
           (resindices (new_universe s) ! index s + n_residues template1) (resnames template1) = Inr g1"
    and b: "set_attrs attr_names g1 (index s) (index s + n_atoms template1) template1 = Inr (new_universe s1)"
    by (rule walk_step_Inr)
  from t assms(2) have "template1 = template" by simp
  with set_attrs_other [OF b] assms(3) set_resnames_resindices [OF a] show ?thesis by simp
qed

text \<open>Rounds of the walk change an attribute array only from the first cursor to the last.\<close>

lemma walk_rounds_array:
  assumes "walk_rounds n structures s = Some sf"
      and "attrs (new_universe s) a = Some vals" and "length vals = n_atoms (new_universe s)"
  shows "index s \<le> index sf \<and> n_atoms (new_universe sf) = n_atoms (new_universe s)
       \<and> (\<exists>vals1. attrs (new_universe sf) a = Some vals1 \<and> length vals1 = length vals
           \<and> (\<forall>i < length vals. i < index s \<or> index sf \<le> i \<longrightarrow> vals1 ! i = vals ! i))"
  using assms
proof (induction n arbitrary: s vals)
  case 0
  then show ?case by simp
next
  case (Suc n)
  from Suc.prems(1) have lt: "index s < n_atoms (new_universe s)"
    by (simp split: if_splits)
  from Suc.prems(1) lt obtain s2 where st: "walk_step structures s = Inr s2"
    and r: "walk_rounds n structures s2 = Some sf"
    by (auto split: sum.splits)
  from walk_step_array [OF st Suc.prems(2,3)] obtain vals2
    where v2: "attrs (new_universe s2) a = Some vals2" "length vals2 = length vals"
      and same2: "\<forall>i < length vals. i < index s \<or> index s2 \<le> i \<longrightarrow> vals2 ! i = vals ! i"
    by blast
  from walk_step_n_atoms [OF st] have n2: "n_atoms (new_universe s2) = n_atoms (new_universe s)" .
  with v2 Suc.prems(3) have l2: "length vals2 = n_atoms (new_universe s2)" by simp
  from Suc.IH [OF r v2(1) l2] obtain vals1
    where i2: "index s2 \<le> index sf" and nf: "n_atoms (new_universe sf) = n_atoms (new_universe s2)"
      and v1: "attrs (new_universe sf) a = Some vals1" "length vals1 = length vals2"
      and same1: "\<forall>i < length vals2. i < index s2 \<or> index sf \<le> i \<longrightarrow> vals1 ! i = vals2 ! i"
    by blast
  from walk_step_index [OF st] have i1: "index s \<le> index s2" .
  have "\<forall>i < length vals. i < index s \<or> index sf \<le> i \<longrightarrow> vals1 ! i = vals ! i"
  proof (intro allI impI)
    fix i
    assume il: "i < length vals" and out: "i < index s \<or> index sf \<le> i"
    with i1 i2 have o1: "i < index s2 \<or> index sf \<le> i" and o2: "i < index s \<or> index s2 \<le> i"
      by auto
    from same2 il o2 have "vals2 ! i = vals ! i" by blast
    moreover from il v2(2) have "i < length vals2" by simp
    with same1 o1 have "vals1 ! i = vals2 ! i" by blast
    ultimately show "vals1 ! i = vals ! i" by simp
  qed
  with i1 i2 nf n2 v1 v2 show ?case by auto
qed

lemma walk_rounds_n_atoms:
  "walk_rounds n structures s = Some sf \<Longrightarrow> n_atoms (new_universe sf) = n_atoms (new_universe s)"
proof (induction n arbitrary: s)
  case 0
  then show ?case by simp
next
  case (Suc n)
  from Suc.prems have lt: "index s < n_atoms (new_universe s)"
    by (simp split: if_splits)
  from Suc.prems lt obtain s2 where st: "walk_step structures s = Inr s2"
    and r: "walk_rounds n structures s2 = Some sf"
    by (auto split: sum.splits)
  from Suc.IH [OF r] walk_step_n_atoms [OF st] show ?case by simp
qed

lemma walk_rounds_bonds:
  "walk_rounds n structures s = Some sf \<Longrightarrow> \<exists>post. bonds_acc sf = bonds_acc s @ post"
proof (induction n arbitrary: s)
  case 0
  then show ?case by simp
next
  case (Suc n)
  from Suc.prems have lt: "index s < n_atoms (new_universe s)"
    by (simp split: if_splits)
  from Suc.prems lt obtain s2 where st: "walk_step structures s = Inr s2"
    and r: "walk_rounds n structures s2 = Some sf"
    by (auto split: sum.splits)
  from st have "\<exists>post. bonds_acc s2 = bonds_acc s @ post"
    by (auto simp: walk_step_def Let_def split: sum.splits)
  with Suc.IH [OF r] show ?case by auto
qed

section \<open>Topology reassignment: bonds\<close>

lemma reassign_from_round:
  assumes "add_required_attributes structures new0 = (new1, warns)"
      and "walk_rounds n structures (initial_state new1) = Some s"
  shows "reassign_topology structures new0 =
           (case walk structures s of
              None \<Rightarrow> None
            | Some (Inl e) \<Rightarrow> Some (warns, Inl e)
            | Some (Inr sf) \<Rightarrow> Some (warns, attach_topology sf))"
  using assms(1) walk_rounds_walk [OF assms(2)] by (simp add: reassign_topology_def)

lemma completes_from_round:
  assumes "add_required_attributes structures new0 = (new1, warns)"
      and "walk_rounds n structures (initial_state new1) = Some s"
      and "index s < n_atoms (new_universe s)"
      and "reassign_topology structures new0 = Some (w, Inr u)"
  shows "\<exists>s1 m sf. walk_step structures s = Inr s1 \<and> walk_rounds m structures s1 = Some sf
           \<and> attach_topology sf = Inr u \<and> w = warns"
proof -
  from reassign_from_round [OF assms(1,2)] assms(4)
  obtain sf where sf: "walk structures s = Some (Inr sf)" and u: "attach_topology sf = Inr u" "w = warns"
    by (auto split: option.splits sum.splits)
  show ?thesis
  proof (cases "walk_step structures s")
    case (Inl e)
    with assms(3) have "walk structures s = Some (Inl e)" by (subst walk.simps) simp
    with sf show ?thesis by simp
  next
    case (Inr s1)
    with assms(3) have "walk structures s = walk structures s1" by (subst walk.simps) simp
    with sf have "walk structures s1 = Some (Inr sf)" by simp
    from walk_Some_rounds [OF this] obtain m where "walk_rounds m structures s1 = Some sf"
      by blast
    with Inr u show ?thesis by blast
  qed
qed

lemma add_TopologyAttr_values_fields:
  assumes "add_TopologyAttr_values b values g = Inr g1"
  shows "attrs g1 = attrs g" and "resnames g1 = resnames g" and "resindices g1 = resindices g"
    and "bonds g1 = (if b = Bonds then Some values else bonds g)"
  using assms
  by (cases b; simp add: add_TopologyAttr_values_def split: if_splits; force)+

lemma attach_topology_fields:
  assumes "attach_topology s = Inr u"
  shows "bonds u = (if bonds_acc s \<noteq> [] then Some (bonds_acc s) else bonds (new_universe s))"
    and "attrs u = attrs (new_universe s)"
    and "resnames u = resnames (new_universe s)"
    and "resindices u = resindices (new_universe s)"
proof -
  from assms obtain new1 new2 new3 where
    a: "(if bonds_acc s \<noteq> [] then add_TopologyAttr_values Bonds (bonds_acc s) (new_universe s)
         else Inr (new_universe s)) = Inr new1"
    and b: "(if angles_acc s \<noteq> [] then add_TopologyAttr_values Angles (bonds_acc s) new1
         else Inr new1) = Inr new2"
    and c: "(if dihedrals_acc s \<noteq> [] then add_TopologyAttr_values Dihedrals (dihedrals_acc s) new2
         else Inr new2) = Inr new3"
    and d: "(if impropers_acc s \<noteq> [] then add_TopologyAttr_values Impropers (impropers_acc s) new3
         else Inr new3) = Inr u"
    by (auto simp: attach_topology_def split: sum.splits)
  have step: "attrs y = attrs x \<and> resnames y = resnames x \<and> resindices y = resindices x
              \<and> bonds y = (if k = Bonds \<and> c then Some v else bonds x)"
    if "(if c then add_TopologyAttr_values k v x else Inr x) = Inr y" for c k v x y
    using that add_TopologyAttr_values_fields [of k v x y] by (auto split: if_splits)
  from step [OF a] step [OF b] step [OF c] step [OF d]
  show "bonds u = (if bonds_acc s \<noteq> [] then Some (bonds_acc s) else bonds (new_universe s))"
    and "attrs u = attrs (new_universe s)"
    and "resnames u = resnames (new_universe s)"
    and "resindices u = resindices (new_universe s)"
    by simp_all
qed

lemma attach_nothing:
  "bonds_acc s = [] \<Longrightarrow> angles_acc s = [] \<Longrightarrow> dihedrals_acc s = [] \<Longrightarrow> impropers_acc s = []
     \<Longrightarrow> attach_topology s = Inr (new_universe s)"
  by (simp add: attach_topology_def)

text \<open>
  C3. Take a cursor position that the walk gets to, where the label names a template that
  defines bonds, in a run of \<^verbatim>\<open>reassign_topology\<close> that returns. The round there appends
  to the running list exactly the template's bond tuples with the cursor added to every
  index, and these tuples stand together, in order, in the bonds attribute of the structure
  returned: a bond \<open>(a, b)\<close> of the template gives the bond \<open>(a + c, b + c)\<close> for the
  cursor \<open>c\<close>. In the scenario of templates A and B the bonds returned are
  \<open>(0,1), (1,2), (3,4), (4,5), (6,7)\<close>.
\<close>

theorem bonds_offset_by_cursor:
  assumes "add_required_attributes structures new0 = (new1, warns)"
      and "walk_rounds n structures (initial_state new1) = Some s"
      and "index s < n_atoms (new_universe s)"
      and "template_at structures s = Inr template"
      and "bonds template = Some tuples"
      and "reassign_topology structures new0 = Some (w, Inr u)"
  shows "(\<exists>s1. walk_step structures s = Inr s1
               \<and> bonds_acc s1 = bonds_acc s @ map (map (\<lambda>i. i + index s)) tuples)
       \<and> (tuples \<noteq> [] \<longrightarrow>
            (\<exists>pre post. bonds u = Some (pre @ map (map (\<lambda>i. i + index s)) tuples @ post)))
       \<and> (\<forall>a b. [a, b] \<in> set tuples \<longrightarrow>
            (\<exists>bs. bonds u = Some bs \<and> [a + index s, b + index s] \<in> set bs))
       \<and> reassign_topology scenario packed_AAB = Some ([], Inr reassigned_AAB)"
proof -
  from completes_from_round [OF assms(1,2,3,6)] obtain s1 m sf
    where st: "walk_step structures s = Inr s1" and r: "walk_rounds m structures s1 = Some sf"
      and u: "attach_topology sf = Inr u"
    by blast
  from st obtain template1 where "template_at structures s = Inr template1"
    and "bonds_acc s1 = bonds_acc s @ offset_indices (bonds template1) (index s)"
    by (rule walk_step_Inr) blast
  with assms(4,5) have b1: "bonds_acc s1 = bonds_acc s @ map (map (\<lambda>i. i + index s)) tuples"
    by (simp add: offset_indices_def)
  from walk_rounds_bonds [OF r] obtain post where "bonds_acc sf = bonds_acc s1 @ post" ..
  with b1 have bf: "bonds_acc sf = bonds_acc s @ map (map (\<lambda>i. i + index s)) tuples @ post"
    by simp
  have c2: "\<exists>pre post. bonds u = Some (pre @ map (map (\<lambda>i. i + index s)) tuples @ post)"
    if "tuples \<noteq> []"
  proof -
    from that bf have "bonds_acc sf \<noteq> []" by simp
    with attach_topology_fields(1) [OF u] bf
    have "bonds u = Some (bonds_acc s @ map (map (\<lambda>i. i + index s)) tuples @ post)"
      by simp
    then show ?thesis by blast
  qed
  have c3: "\<exists>bs. bonds u = Some bs \<and> [a + index s, b + index s] \<in> set bs"
    if "[a, b] \<in> set tuples" for a b
  proof -
    from that have ne: "tuples \<noteq> []" by auto
    from c2 [OF ne] obtain pre post
      where bu: "bonds u = Some (pre @ map (map (\<lambda>i. i + index s)) tuples @ post)" by blast
    from that have "map (\<lambda>i. i + index s) [a, b] \<in> set (map (map (\<lambda>i. i + index s)) tuples)"
      unfolding set_map by (rule imageI)
    with bu show ?thesis by simp
  qed
  have c4: "reassign_topology scenario packed_AAB = Some ([], Inr reassigned_AAB)"
    by (simp add: eval_defs walk.simps scenario_def scenario_A_def scenario_B_def packed_AAB_def
          reassigned_AAB_def)
  from st b1 c2 c3 c4 show ?thesis by blast
qed

theorem bonds_offset_by_cursor_witness:
  "(\<exists>pre post. bonds reassigned_AAB = Some (pre @ [[3, 4], [4, 5]] @ post))
   \<and> reassign_topology scenario packed_AAB = Some ([], Inr reassigned_AAB)"
proof -
  let ?s = "\<lparr>new_universe = packed_AAB\<lparr>resnames := [''AAA'', ''R0'', ''R1'']\<rparr>, index = 3,
              bonds_acc = [[0, 1], [1, 2]], angles_acc = [],
              dihedrals_acc = [], impropers_acc = []\<rparr>"
  have a: "add_required_attributes scenario packed_AAB = (packed_AAB, [])"
    by (simp add: eval_defs scenario_def scenario_A_def scenario_B_def)
  have r: "walk_rounds 1 scenario (initial_state packed_AAB) = Some ?s"
    by (simp add: eval_defs scenario_def scenario_A_def scenario_B_def packed_AAB_def)
  have c: "index ?s < n_atoms (new_universe ?s)"
    by (simp add: n_atoms_def packed_AAB_def)
  have t: "template_at scenario ?s = Inr scenario_A"
    by (simp add: eval_defs scenario_def packed_AAB_def)
  have b: "bonds scenario_A = Some [[0, 1], [1, 2]]"
    by (simp add: scenario_A_def)
  have f: "reassign_topology scenario packed_AAB = Some ([], Inr reassigned_AAB)"
    by (simp add: eval_defs walk.simps scenario_def scenario_A_def scenario_B_def packed_AAB_def
          reassigned_AAB_def)
  from bonds_offset_by_cursor [OF a r c t b f]
  have "\<exists>pre post. bonds reassigned_AAB = Some (pre @ map (map (\<lambda>i. i + index ?s)) [[0, 1], [1, 2]] @ post)"
    by blast
  then have "\<exists>pre post. bonds reassigned_AAB = Some (pre @ [[3, 4], [4, 5]] @ post)"
    by simp
  with f show ?thesis by simp
qed

section \<open>Topology reassignment: a template larger than what remains\<close>

lemma set_resnames_fits:
  assumes "lo + length vals \<le> n_residues g"
  shows "\<exists>g1. set_resnames g lo (lo + length vals) vals = Inr g1"
proof -
  from assms have "slice_bounds (n_residues g) lo (lo + length vals) = (lo, lo + length vals)"
    by (simp add: slice_bounds_def Let_def)
  then show ?thesis by (simp add: set_resnames_def set_slice_def)
qed

lemma set_attrs_none:
  "\<forall>a. attrs template a = None \<Longrightarrow> set_attrs as g lo hi template = Inr g"
  by (induction as) simp_all

lemma add_required_n_atoms:
  "add_required_attributes structures new0 = (new1, warns) \<Longrightarrow> n_atoms new1 = n_atoms new0"
  by (simp add: n_atoms_def add_required_attributes_result(1))

text \<open>The container of an attribute that some template has, at any cursor position.\<close>

lemma container_at_round:
  assumes "add_required_attributes structures new0 = (new1, warns)"
      and "walk_rounds n structures (initial_state new1) = Some s"
      and "list_ex (\<lambda>pms. hasattr (ag pms) a) structures"
  shows "n_atoms (new_universe s) = n_atoms new0
       \<and> (\<exists>vals. attrs (new_universe s) a = Some vals \<and> length vals = n_atoms new0
             \<and> (\<forall>i < n_atoms new0. index s \<le> i \<longrightarrow> vals ! i = blank a))"
proof -
  from add_required_attributes_result(3) [OF assms(1), of a] assms(3)
  have c: "attrs (new_universe (initial_state new1)) a = Some (replicate (n_atoms new0) (blank a))"
    by (simp add: initial_state_def)
  from add_required_n_atoms [OF assms(1)]
  have l: "length (replicate (n_atoms new0) (blank a)) = n_atoms (new_universe (initial_state new1))"
    by (simp add: initial_state_def)
  from walk_rounds_array [OF assms(2) c l] l show ?thesis
    by (auto simp: initial_state_def)
qed

text \<open>
  C2, as the code has it. Take a cursor position that the walk gets to, where the template
  that the label names has more atoms than remain. No check of the block size is made. The
  round can only fail with the length error of the library's setters, and then
  \<^verbatim>\<open>reassign_topology\<close> raises it; it does fail so when the template has a per-atom
  attribute with one value per atom. When the round succeeds, the cursor is past the end,
  the walk ends there, and the result of \<^verbatim>\<open>reassign_topology\<close> is that of attaching the
  bonded lists of that round: the structure of that round when the lists are empty. The
  round does succeed when the template has no per-atom attribute and its residues fit.
\<close>

theorem overrun_is_clipped:
  assumes "add_required_attributes structures new0 = (new1, warns)"
      and "walk_rounds n structures (initial_state new1) = Some s"
      and "index s < n_atoms (new_universe s)"
      and "template_at structures s = Inr template"
      and "n_atoms (new_universe s) - index s < n_atoms template"
  shows "(\<forall>e. walk_step structures s = Inl e \<longrightarrow>
            e = LengthError \<and> reassign_topology structures new0 = Some (warns, Inl LengthError))
       \<and> (\<forall>s1. walk_step structures s = Inr s1 \<longrightarrow>
            n_atoms (new_universe s1) < index s1
            \<and> reassign_topology structures new0 = Some (warns, attach_topology s1))
       \<and> ((\<forall>a. attrs template a = None)
            \<and> resindices (new_universe s) ! index s + n_residues template \<le> n_residues (new_universe s)
            \<longrightarrow> (\<exists>s1. walk_step structures s = Inr s1))
       \<and> ((\<exists>a vals. attrs template a = Some vals \<and> length vals = n_atoms template)
            \<longrightarrow> walk_step structures s = Inl LengthError)
       \<and> (\<forall>s1. walk_step structures s = Inr s1
               \<and> bonds_acc s1 = [] \<and> angles_acc s1 = [] \<and> dihedrals_acc s1 = [] \<and> impropers_acc s1 = []
            \<longrightarrow> reassign_topology structures new0 = Some (warns, Inr (new_universe s1)))"
proof (intro conjI allI impI)
  fix e
  assume e: "walk_step structures s = Inl e"
  from walk_step_error [OF e assms(4)] show "e = LengthError" .
  with e assms(3) have "walk structures s = Some (Inl LengthError)"
    by (subst walk.simps) simp
  with reassign_from_round [OF assms(1,2)]
  show "reassign_topology structures new0 = Some (warns, Inl LengthError)" by simp
next
  fix s1
  assume st: "walk_step structures s = Inr s1"
  then obtain template1 where "template_at structures s = Inr template1"
    and "index s1 = index s + n_atoms template1"
    by (rule walk_step_Inr) blast
  with assms(4) have i: "index s1 = index s + n_atoms template" by simp
  from walk_step_n_atoms [OF st] have n: "n_atoms (new_universe s1) = n_atoms (new_universe s)" .
  from i n assms(3,5) show past: "n_atoms (new_universe s1) < index s1" by arith
  from past have "walk structures s1 = Some (Inr s1)" by (subst walk.simps) simp
  moreover from st assms(3) have "walk structures s = walk structures s1"
    by (subst walk.simps) simp
  ultimately have "walk structures s = Some (Inr s1)" by simp
  with reassign_from_round [OF assms(1,2)]
  show "reassign_topology structures new0 = Some (warns, attach_topology s1)" by simp
next
  assume h: "(\<forall>a. attrs template a = None)
     \<and> resindices (new_universe s) ! index s + n_residues template \<le> n_residues (new_universe s)"
  then have "resindices (new_universe s) ! index s + length (resnames template) \<le> n_residues (new_universe s)"
    by (simp add: n_residues_def)
  from set_resnames_fits [OF this] obtain g1
    where "set_resnames (new_universe s) (resindices (new_universe s) ! index s)
             (resindices (new_universe s) ! index s + n_residues template) (resnames template) = Inr g1"
    by (auto simp: n_residues_def)
  with h assms(4) show "\<exists>s1. walk_step structures s = Inr s1"
    by (simp add: walk_step_def Let_def set_attrs_none)
next
  assume "\<exists>a vals. attrs template a = Some vals \<and> length vals = n_atoms template"
  then obtain a vals where av: "attrs template a = Some vals" "length vals = n_atoms template"
    by blast
  from template_at_in_set [OF assms(4)] av(1) have "list_ex (\<lambda>pms. hasattr (ag pms) a) structures"
    by (auto simp: list_ex_iff hasattr_def)
  from container_at_round [OF assms(1,2) this] obtain cur
    where n: "n_atoms (new_universe s) = n_atoms new0"
      and cur: "attrs (new_universe s) a = Some cur" "length cur = n_atoms new0"
    by blast
  show "walk_step structures s = Inl LengthError"
  proof (cases "set_resnames (new_universe s) (resindices (new_universe s) ! index s)
             (resindices (new_universe s) ! index s + n_residues template) (resnames template)")
    case (Inl e)
    with set_resnames_error [OF Inl] assms(4) show ?thesis
      by (simp add: walk_step_def Let_def)
  next
    case (Inr g1)
    from set_resnames_resindices [OF Inr] cur n
    have g1: "attrs g1 a = Some cur" "length cur = n_atoms g1" "n_atoms g1 = n_atoms (new_universe s)"
      by (simp_all add: n_atoms_def)
    from g1(3) assms(3,5) av(2) have "index s < n_atoms g1" "n_atoms g1 - index s < length vals"
      by simp_all
    from set_attrs_overrun [OF attr_names_all av(1) g1(1,2) this]
    have "set_attrs attr_names g1 (index s) (index s + n_atoms template) template = Inl LengthError" .
    with Inr assms(4) show ?thesis
      by (simp add: walk_step_def Let_def)
  qed
next
  fix s1
  assume h: "walk_step structures s = Inr s1
               \<and> bonds_acc s1 = [] \<and> angles_acc s1 = [] \<and> dihedrals_acc s1 = [] \<and> impropers_acc s1 = []"
  then have st: "walk_step structures s = Inr s1" by simp
  then obtain template1 where "template_at structures s = Inr template1"
    and "index s1 = index s + n_atoms template1"
    by (rule walk_step_Inr) blast
  with assms(4) have i: "index s1 = index s + n_atoms template" by simp
  from walk_step_n_atoms [OF st] have n: "n_atoms (new_universe s1) = n_atoms (new_universe s)" .
  from i n assms(3,5) have "\<not> index s1 < n_atoms (new_universe s1)" by arith
  then have "walk structures s1 = Some (Inr s1)" by (subst walk.simps) simp
  moreover from st assms(3) have "walk structures s = walk structures s1"
    by (subst walk.simps) simp
  ultimately have "walk structures s = Some (Inr s1)" by simp
  with reassign_from_round [OF assms(1,2)] attach_nothing [of s1] h
  show "reassign_topology structures new0 = Some (warns, Inr (new_universe s1))" by simp
qed

text \<open>
  C2, as stated, fails: for template C (three atoms) and a packed structure of two atoms
  labelled \<^verbatim>\<open>R0\<close>, the template has more atoms than remain at cursor 0, and
  \<^verbatim>\<open>reassign_topology\<close> returns a structure instead of raising.
\<close>

theorem overrun_returns_structure:
  "n_atoms packed_short < n_atoms (ag structure_C)
   \<and> atom_resname packed_short 0 = replica_label 0
   \<and> reassign_topology [structure_C] packed_short = Some ([], Inr reassigned_short)"
  by (simp add: eval_defs walk.simps structure_C_def template_C_def packed_short_def
        reassigned_short_def replica_label_def str_nat.simps digit_char_def)

theorem overrun_is_clipped_witness:
  "reassign_topology [structure_C] packed_short = Some ([], Inr reassigned_short)
   \<and> reassign_topology [structure_Q] packed_short = Some ([], Inl LengthError)"
proof -
  have a1: "add_required_attributes [structure_C] packed_short = (packed_short, [])"
    by (simp add: add_required_attributes_def add_required_attr_def attr_names_def hasattr_def
          structure_C_def template_C_def)
  have r1: "walk_rounds 0 [structure_C] (initial_state packed_short) = Some (initial_state packed_short)"
    by simp
  have c1: "index (initial_state packed_short) < n_atoms (new_universe (initial_state packed_short))"
    by (simp add: initial_state_def packed_short_def n_atoms_def)
  have t1: "template_at [structure_C] (initial_state packed_short) = Inr template_C"
    by (simp add: eval_defs packed_short_def structure_C_def)
  have o1: "n_atoms (new_universe (initial_state packed_short)) - index (initial_state packed_short)
              < n_atoms template_C"
    by (simp add: initial_state_def packed_short_def template_C_def n_atoms_def)
  have f1: "(\<forall>a. attrs template_C a = None)
     \<and> resindices (new_universe (initial_state packed_short)) ! index (initial_state packed_short)
         + n_residues template_C \<le> n_residues (new_universe (initial_state packed_short))"
    by (simp add: initial_state_def packed_short_def template_C_def n_residues_def)
  have st1: "walk_step [structure_C] (initial_state packed_short)
               = Inr \<lparr>new_universe = reassigned_short, index = 3, bonds_acc = [], angles_acc = [],
                      dihedrals_acc = [], impropers_acc = []\<rparr>"
    by (simp add: eval_defs structure_C_def template_C_def packed_short_def reassigned_short_def)
  from overrun_is_clipped [OF a1 r1 c1 t1 o1] f1
  have "\<exists>s1. walk_step [structure_C] (initial_state packed_short) = Inr s1"
    and "\<forall>s1. walk_step [structure_C] (initial_state packed_short) = Inr s1
               \<and> bonds_acc s1 = [] \<and> angles_acc s1 = [] \<and> dihedrals_acc s1 = [] \<and> impropers_acc s1 = []
            \<longrightarrow> reassign_topology [structure_C] packed_short = Some ([], Inr (new_universe s1))"
    by blast+
  from this(2) [rule_format, OF conjI [OF st1]]
  have p1: "reassign_topology [structure_C] packed_short = Some ([], Inr reassigned_short)"
    by simp
  have a2: "add_required_attributes [structure_Q] packed_short = (add_TopologyAttr Charges packed_short, [])"
    by (simp add: add_required_attributes_def add_required_attr_def attr_names_def hasattr_def
          structure_Q_def template_Q_def)
  let ?s = "initial_state (add_TopologyAttr Charges packed_short)"
  have r2: "walk_rounds 0 [structure_Q] ?s = Some ?s"
    by simp
  have c2: "index ?s < n_atoms (new_universe ?s)"
    by (simp add: initial_state_def packed_short_def n_atoms_def add_TopologyAttr_def)
  have t2: "template_at [structure_Q] ?s = Inr template_Q"
    by (simp add: eval_defs packed_short_def structure_Q_def)
  have o2: "n_atoms (new_universe ?s) - index ?s < n_atoms template_Q"
    by (simp add: initial_state_def packed_short_def template_Q_def n_atoms_def add_TopologyAttr_def)
  have f2: "\<exists>a vals. attrs template_Q a = Some vals \<and> length vals = n_atoms template_Q"
    by (rule exI [of _ Charges]) (simp add: template_Q_def n_atoms_def)
  from overrun_is_clipped [OF a2 r2 c2 t2 o2] f2
  have p2: "reassign_topology [structure_Q] packed_short = Some ([], Inl LengthError)"
    by blast
  from p1 p2 show ?thesis by simp
qed

section \<open>Topology reassignment: per-atom attributes\<close>

text \<open>
  C7. For each of the four attributes: the round of the first loop adds a fresh container
  exactly when some template has the attribute, and emits the warning exactly when some
  but not all templates have it. After the loop the universe has, for the attribute, the
  blank value for every atom when some template has it, and what it had before otherwise;
  one warning was emitted for each attribute that some but not all templates have. The
  loop raises nothing. In a run of \<^verbatim>\<open>reassign_topology\<close> that returns, every atom of a block
  whose template lacks the attribute has the blank value in the structure returned.
\<close>

theorem partial_attributes:
  assumes "add_required_attributes structures new0 = (new1, warns)"
  shows "add_required_attr structures a (g, ws)
           = (if list_ex (\<lambda>pms. hasattr (ag pms) a) structures
              then (add_TopologyAttr a g,
                    if \<not> list_all (\<lambda>pms. hasattr (ag pms) a) structures
                    then ws @ [''added attribute which not all templates had''] else ws)
              else (g, ws))
       \<and> attrs new1 a = (if list_ex (\<lambda>pms. hasattr (ag pms) a) structures
                          then Some (replicate (n_atoms new0) (blank a)) else attrs new0 a)
       \<and> warns = replicate (length (filter (\<lambda>a. list_ex (\<lambda>pms. hasattr (ag pms) a) structures
                                \<and> \<not> list_all (\<lambda>pms. hasattr (ag pms) a) structures) attr_names))
                     ''added attribute which not all templates had''
       \<and> (warns \<noteq> [] \<longleftrightarrow> (\<exists>a. list_ex (\<lambda>pms. hasattr (ag pms) a) structures
                                \<and> \<not> list_all (\<lambda>pms. hasattr (ag pms) a) structures))
       \<and> (\<forall>n s template w u i.
             walk_rounds n structures (initial_state new1) = Some s
             \<and> index s < n_atoms (new_universe s)
             \<and> template_at structures s = Inr template
             \<and> attrs template a = None
             \<and> list_ex (\<lambda>pms. hasattr (ag pms) a) structures
             \<and> reassign_topology structures new0 = Some (w, Inr u)
             \<and> index s \<le> i \<and> i < index s + n_atoms template \<and> i < n_atoms new0
             \<longrightarrow> (\<exists>vals. attrs u a = Some vals \<and> vals ! i = blank a))"
proof -
  let ?partial = "\<lambda>a. list_ex (\<lambda>pms. hasattr (ag pms) a) structures
                                \<and> \<not> list_all (\<lambda>pms. hasattr (ag pms) a) structures"
  have c1: "add_required_attr structures a (g, ws)
           = (if list_ex (\<lambda>pms. hasattr (ag pms) a) structures
              then (add_TopologyAttr a g,
                    if \<not> list_all (\<lambda>pms. hasattr (ag pms) a) structures
                    then ws @ [''added attribute which not all templates had''] else ws)
              else (g, ws))"
    by (simp add: add_required_attr_def)
  note c2 = add_required_attributes_result(3) [OF assms, of a]
  note c3 = add_required_attributes_result(4) [OF assms]
  have "filter ?partial attr_names \<noteq> [] \<longleftrightarrow> (\<exists>a. ?partial a)"
    using attr_names_all by (auto simp: filter_empty_conv)
  with c3 have c4: "warns \<noteq> [] \<longleftrightarrow> (\<exists>a. ?partial a)"
    by simp
  have c5: "\<exists>vals. attrs u a = Some vals \<and> vals ! i = blank a"
    if r: "walk_rounds n structures (initial_state new1) = Some s"
      and lt: "index s < n_atoms (new_universe s)"
      and t: "template_at structures s = Inr template"
      and lack: "attrs template a = None"
      and any: "list_ex (\<lambda>pms. hasattr (ag pms) a) structures"
      and fin: "reassign_topology structures new0 = Some (w, Inr u)"
      and i: "index s \<le> i" "i < index s + n_atoms template" "i < n_atoms new0"
    for n s template w u i
  proof -
    from container_at_round [OF assms r any] obtain vals
      where n: "n_atoms (new_universe s) = n_atoms new0"
        and v: "attrs (new_universe s) a = Some vals" "length vals = n_atoms new0"
        and bl: "\<forall>i < n_atoms new0. index s \<le> i \<longrightarrow> vals ! i = blank a"
      by blast
    from completes_from_round [OF assms r lt fin] obtain s1 m sf
      where st: "walk_step structures s = Inr s1" and rr: "walk_rounds m structures s1 = Some sf"
        and u: "attach_topology sf = Inr u"
      by blast
    from walk_step_lacking [OF st t lack] v
    have v1: "attrs (new_universe s1) a = Some vals" by simp
    from walk_step_n_atoms [OF st] n v have l1: "length vals = n_atoms (new_universe s1)" by simp
    from st obtain template1 where "template_at structures s = Inr template1"
      and "index s1 = index s + n_atoms template1"
      by (rule walk_step_Inr) blast
    with t have i1: "index s1 = index s + n_atoms template" by simp
    from walk_rounds_array [OF rr v1 l1] obtain valsf
      where vf: "attrs (new_universe sf) a = Some valsf"
        and same: "\<forall>i < length vals. i < index s1 \<or> index sf \<le> i \<longrightarrow> valsf ! i = vals ! i"
      by blast
    from i i1 v(2) same have "valsf ! i = vals ! i" by simp
    with bl i have "valsf ! i = blank a" by simp
    with vf attach_topology_fields(2) [OF u] show ?thesis by simp
  qed
  from c1 c2 c3 c4 c5 show ?thesis by blast
qed

theorem partial_attributes_witness:
  "(\<exists>vals. attrs reassigned_CQ Charges = Some vals \<and> vals ! 1 = Flt 0)
   \<and> reassign_topology [structure_C, structure_Q] packed_CQ
       = Some ([''added attribute which not all templates had''], Inr reassigned_CQ)"
proof -
  have a: "add_required_attributes [structure_C, structure_Q] packed_CQ
             = (add_TopologyAttr Charges packed_CQ, [''added attribute which not all templates had''])"
    by (simp add: add_required_attributes_def add_required_attr_def attr_names_def hasattr_def
          structure_C_def template_C_def structure_Q_def template_Q_def)
  let ?s = "initial_state (add_TopologyAttr Charges packed_CQ)"
  have r: "walk_rounds 0 [structure_C, structure_Q] ?s = Some ?s"
    by simp
  have c: "index ?s < n_atoms (new_universe ?s)"
    by (simp add: initial_state_def packed_CQ_def n_atoms_def add_TopologyAttr_def)
  have t: "template_at [structure_C, structure_Q] ?s = Inr template_C"
    by (simp add: eval_defs packed_CQ_def structure_C_def)
  have l: "attrs template_C Charges = None"
    by (simp add: template_C_def)
  have e: "list_ex (\<lambda>pms. hasattr (ag pms) Charges) [structure_C, structure_Q]"
    by (simp add: hasattr_def structure_Q_def template_Q_def)
  have f: "reassign_topology [structure_C, structure_Q] packed_CQ
       = Some ([''added attribute which not all templates had''], Inr reassigned_CQ)"
    by (simp add: eval_defs walk.simps structure_C_def template_C_def structure_Q_def
          template_Q_def packed_CQ_def reassigned_CQ_def blank_def)
  have i: "index ?s \<le> 1 \<and> 1 < index ?s + n_atoms template_C \<and> 1 < n_atoms packed_CQ"
    by (simp add: initial_state_def template_C_def packed_CQ_def n_atoms_def)
  from partial_attributes [OF a, of Charges] r c t l e f i
  have "\<exists>vals. attrs reassigned_CQ Charges = Some vals \<and> vals ! 1 = blank Charges"
    by blast
  with f show ?thesis by (simp add: blank_def)
qed

section \<open>Topology reassignment: residue names\<close>

subsection \<open>Reading a label back\<close>

lemma digit_char_props:
  assumes "d < 10"
  shows "is_digit (digit_char d)" and "digit_val (digit_char d) = d"
proof -
  from assms have "d = 0 \<or> d = 1 \<or> d = 2 \<or> d = 3 \<or> d = 4 \<or> d = 5 \<or> d = 6 \<or> d = 7 \<or> d = 8 \<or> d = 9"
    by arith
  then show "is_digit (digit_char d)" and "digit_val (digit_char d) = d"
    by (auto simp: digit_char_def is_digit_def digit_val_def)
qed

lemma is_digit_not_space: "is_digit c \<Longrightarrow> \<not> is_space c"
  by (auto simp: is_digit_def is_space_def Let_def)

lemma is_digit_not_sign: "is_digit c \<Longrightarrow> c \<noteq> CHR ''-'' \<and> c \<noteq> CHR ''+''"
  by (auto simp: is_digit_def)

lemma str_nat_digits: "list_all is_digit (str_nat n) \<and> str_nat n \<noteq> []"
proof (induction n rule: str_nat.induct)
  case (1 n)
  show ?case
  proof (cases "n < 10")
    case True
    then show ?thesis by (subst (1 2) str_nat.simps) (simp add: digit_char_props)
  next
    case False
    with 1 show ?thesis
      by (subst (1 2) str_nat.simps) (simp add: digit_char_props)
  qed
qed

lemma digits_val_str_nat: "foldl (\<lambda>a c. 10 * a + digit_val c) 0 (str_nat n) = n"
proof (induction n rule: str_nat.induct)
  case (1 n)
  show ?case
  proof (cases "n < 10")
    case True
    then show ?thesis by (subst str_nat.simps) (simp add: digit_char_props)
  next
    case False
    with 1 show ?thesis
      by (subst str_nat.simps) (simp add: digit_char_props)
  qed
qed

lemma strip_digits:
  assumes "list_all is_digit s"
  shows "strip s = s"
proof (cases s rule: rev_cases)
  case Nil
  then show ?thesis by (simp add: strip_def)
next
  case (snoc xs x)
  with assms have l: "\<not> is_space x" by (simp add: is_digit_not_space)
  from snoc assms have "s \<noteq> []" "\<not> is_space (hd s)"
    by (cases xs; simp add: is_digit_not_space)+
  then have "dropWhile is_space s = s" by (cases s) simp_all
  with snoc l show ?thesis by (simp add: strip_def)
qed

lemma digits_ok_digits: "list_all is_digit s \<Longrightarrow> s \<noteq> [] \<or> b \<Longrightarrow> digits_ok b s"
  by (induction s arbitrary: b) auto

lemma py_int_str_nat:
  "py_int (str_nat n)
     = (if length (str_nat n) \<le> int_max_str_digits then Inr (int n) else Inl IntParseError)"
proof -
  from str_nat_digits [of n] obtain c cs where s: "str_nat n = c # cs"
    by (cases "str_nat n") auto
  with str_nat_digits [of n] have c: "is_digit c" and all: "list_all is_digit (c # cs)" by simp_all
  from all have ok: "digits_ok False (c # cs)" by (rule digits_ok_digits) simp
  from all have f: "filter is_digit (c # cs) = c # cs"
    by (simp only: filter_id_conv list_all_iff)
  with digits_val_str_nat [of n] s have v: "digits_val (c # cs) = n"
    by (simp add: digits_val_def)
  from ok f v have p: "parse_digits (c # cs)
         = (if length (c # cs) \<le> int_max_str_digits then Inr n else Inl IntParseError)"
    by (simp only: parse_digits_def) simp
  from all have "strip (c # cs) = c # cs" by (rule strip_digits)
  with s p is_digit_not_sign [OF c] show ?thesis
    by (simp add: py_int_def)
qed

lemma label_read_back:
  "py_int (drop 1 (replica_label t))
     = (if length (str_nat t) \<le> int_max_str_digits then Inr (int t) else Inl IntParseError)"
  by (simp add: replica_label_def py_int_str_nat)

lemma py_getitem_nat: "t < length xs \<Longrightarrow> py_getitem xs (int t) = Inr (xs ! t)"
  by (simp add: py_getitem_def)


subsection \<open>The walk over blocks that mirror their templates\<close>

lemma set_resnames_window:
  assumes "set_resnames g (length pre) (length pre + length old) vals = Inr g1"
      and "resnames g = pre @ old @ post"
  shows "resnames g1 = pre @ vals @ post"
proof -
  from assms(2) have "slice_bounds (n_residues g) (length pre) (length pre + length old)
                        = (length pre, length pre + length old)"
    by (simp add: slice_bounds_def Let_def n_residues_def)
  with assms show ?thesis
    by (auto simp: set_resnames_def set_slice_def split: if_splits)
qed

lemma walk_blocks:
  assumes "\<forall>t \<in> set todo. t < length structures \<and> laid_out (ag (structures ! t))"
      and "resindices (new_universe s) = pre @ block_resindices structures todo (length names)"
      and "index s = length pre"
      and "resnames (new_universe s) = names @ block_labels structures todo"
      and "walk structures s = Some (Inr sf)"
  shows "resnames (new_universe sf) = names @ concat (map (\<lambda>t. resnames (ag (structures ! t))) todo)
       \<and> resindices (new_universe sf) = resindices (new_universe s)"
  using assms
proof (induction todo arbitrary: s pre names)
  case Nil
  then have "\<not> index s < n_atoms (new_universe s)" by (simp add: n_atoms_def)
  then have "walk structures s = Some (Inr s)" by (subst walk.simps) simp
  with Nil show ?case by (simp add: block_labels_def)
next
  case (Cons t ts)
  let ?T = "ag (structures ! t)"
  let ?rest = "block_resindices structures ts (length names + n_residues ?T)"
  let ?labels = "block_labels structures ts"
  from Cons.prems(1) have t: "t < length structures" and lo: "laid_out ?T" by simp_all
  from lo obtain r rs where rr: "resindices ?T = r # rs" and r0: "r = 0"
    by (cases "resindices ?T") (auto simp: laid_out_def)
  from lo rr r0 have nres: "0 < n_residues ?T" by (simp add: laid_out_def)
  then obtain q where q: "n_residues ?T = Suc q" by (cases "n_residues ?T") auto
  from Cons.prems(2) rr
  have ri: "resindices (new_universe s) = pre @ (r + length names) # map (\<lambda>r. r + length names) rs @ ?rest"
    by simp
  with Cons.prems(3) have lt: "index s < n_atoms (new_universe s)" by (simp add: n_atoms_def)
  from ri Cons.prems(3) r0 have start: "resindices (new_universe s) ! index s = length names"
    by (simp add: nth_append)
  from Cons.prems(4) have rn: "resnames (new_universe s)
         = names @ replicate (n_residues ?T) (replica_label t) @ ?labels"
    by (simp add: block_labels_def)
  with q have "resnames (new_universe s) ! length names = replica_label t"
    by (simp add: nth_append)
  with start have lbl: "atom_resname (new_universe s) (index s) = replica_label t"
    by (simp add: atom_resname_def)
  have tmpl: "template_at structures s = Inr ?T"
  proof (cases "length (str_nat t) \<le> int_max_str_digits")
    case True
    with lbl t label_read_back [of t] show ?thesis
      by (simp add: template_at_def py_getitem_nat)
  next
    case False
    with lbl label_read_back [of t] have "template_at structures s = Inl IntParseError"
      by (simp add: template_at_def)
    then have "walk_step structures s = Inl IntParseError"
      by (simp add: walk_step_def)
    with lt have "walk structures s = Some (Inl IntParseError)"
      by (subst walk.simps) simp
    with Cons.prems(5) show ?thesis by simp
  qed
  show ?case
  proof (cases "walk_step structures s")
    case (Inl e)
    with lt have "walk structures s = Some (Inl e)" by (subst walk.simps) simp
    with Cons.prems(5) show ?thesis by simp
  next
    case (Inr s1)
    with lt have "walk structures s = walk structures s1" by (subst walk.simps) simp
    with Cons.prems(5) have w1: "walk structures s1 = Some (Inr sf)" by simp
    from Inr obtain template1 g1 where
      t1: "template_at structures s = Inr template1"
      and a: "set_resnames (new_universe s) (resindices (new_universe s) ! index s)
           (resindices (new_universe s) ! index s + n_residues template1) (resnames template1) = Inr g1"
      and b: "set_attrs attr_names g1 (index s) (index s + n_atoms template1) template1 = Inr (new_universe s1)"
      and i: "index s1 = index s + n_atoms template1"
      by (rule walk_step_Inr)
    from t1 tmpl have eq: "template1 = ?T" by simp
    from a eq start
    have a': "set_resnames (new_universe s) (length names)
                (length names + length (replicate (n_residues ?T) (replica_label t))) (resnames ?T) = Inr g1"
      by simp
    from set_resnames_window [OF a' rn] have n1: "resnames g1 = names @ resnames ?T @ ?labels" .
    from set_resnames_resindices [OF a] set_attrs_resindices [OF b] n1
    have f1: "resindices (new_universe s1) = resindices (new_universe s)"
      and f2: "resnames (new_universe s1) = (names @ resnames ?T) @ ?labels"
      by simp_all
    from f1 Cons.prems(2)
    have p2: "resindices (new_universe s1)
               = (pre @ map (\<lambda>r. r + length names) (resindices ?T))
                 @ block_resindices structures ts (length (names @ resnames ?T))"
      by (simp add: n_residues_def)
    from i eq Cons.prems(3)
    have p3: "index s1 = length (pre @ map (\<lambda>r. r + length names) (resindices ?T))"
      by (simp add: n_atoms_def)
    from Cons.prems(1) have p1: "\<forall>t \<in> set ts. t < length structures \<and> laid_out (ag (structures ! t))"
      by simp
    from Cons.IH [OF p1 p2 p3 f2 w1] f1 show ?thesis by simp
  qed
qed

lemma block_atom_resnames:
  assumes "\<forall>t \<in> set ts. laid_out (ag (structures ! t))"
  shows "map (\<lambda>r. (pre @ concat (map (\<lambda>t. resnames (ag (structures ! t))) ts)) ! r)
           (block_resindices structures ts (length pre))
         = concat (map (\<lambda>t. atom_resnames (ag (structures ! t))) ts)"
  using assms
proof (induction ts arbitrary: pre)
  case Nil
  then show ?case by simp
next
  case (Cons t ts)
  let ?T = "ag (structures ! t)"
  let ?tail = "concat (map (\<lambda>t. resnames (ag (structures ! t))) ts)"
  from Cons.prems have lo: "\<forall>r \<in> set (resindices ?T). r < length (resnames ?T)"
    by (simp add: laid_out_def list_all_iff n_residues_def)
  have first: "map (\<lambda>r. (pre @ resnames ?T @ ?tail) ! r) (map (\<lambda>r. r + length pre) (resindices ?T))
                = atom_resnames ?T"
    using lo by (simp add: atom_resnames_def nth_append)
  from Cons.prems have "\<forall>t \<in> set ts. laid_out (ag (structures ! t))" by simp
  from Cons.IH [OF this, of "pre @ resnames ?T"]
  have rest: "map (\<lambda>r. (pre @ resnames ?T @ ?tail) ! r)
                (block_resindices structures ts (length pre + n_residues ?T))
              = concat (map (\<lambda>t. atom_resnames (ag (structures ! t))) ts)"
    by (simp add: n_residues_def)
  from first rest show ?case by simp
qed

text \<open>
  C6, as the code has it. Let the packed structure mirror the templates, block by block.
  When \<^verbatim>\<open>reassign_topology\<close> returns, the residues of every block have the residue names
  of its template, in order, and the residue name of every atom is the residue name of the
  atom of the template it comes from.
\<close>

theorem residue_names_restored:
  assumes "\<forall>t \<in> set ts. t < length structures \<and> laid_out (ag (structures ! t))"
      and "resindices new0 = block_resindices structures ts 0"
      and "resnames new0 = block_labels structures ts"
      and "reassign_topology structures new0 = Some (w, Inr u)"
  shows "resnames u = concat (map (\<lambda>t. resnames (ag (structures ! t))) ts)
       \<and> atom_resnames u = concat (map (\<lambda>t. atom_resnames (ag (structures ! t))) ts)"
proof -
  obtain new1 warns where p: "add_required_attributes structures new0 = (new1, warns)"
    by (cases "add_required_attributes structures new0")
  from assms(4) p obtain sf where wk: "walk structures (initial_state new1) = Some (Inr sf)"
    and u: "attach_topology sf = Inr u"
    by (auto simp: reassign_topology_def split: option.splits sum.splits)
  from add_required_attributes_result(1,2) [OF p] assms(2,3)
  have i1: "resindices (new_universe (initial_state new1)) = [] @ block_resindices structures ts (length ([] :: string list))"
    and i2: "index (initial_state new1) = length ([] :: nat list)"
    and i3: "resnames (new_universe (initial_state new1)) = [] @ block_labels structures ts"
    by (simp_all add: initial_state_def)
  from walk_blocks [OF assms(1) i1 i2 i3 wk] i1
  have names: "resnames (new_universe sf) = concat (map (\<lambda>t. resnames (ag (structures ! t))) ts)"
    and idx: "resindices (new_universe sf) = block_resindices structures ts 0"
    by simp_all
  from assms(1) have "\<forall>t \<in> set ts. laid_out (ag (structures ! t))" by simp
  from block_atom_resnames [OF this, of "[]"] names idx
  have "atom_resnames (new_universe sf) = concat (map (\<lambda>t. atom_resnames (ag (structures ! t))) ts)"
    by (simp add: atom_resnames_def)
  with names attach_topology_fields(3,4) [OF u] show ?thesis
    by (simp add: atom_resnames_def)
qed

theorem residue_names_restored_witness:
  "atom_resnames reassigned_AAB = [''AAA'', ''AAA'', ''AAA'', ''AAA'', ''AAA'', ''AAA'', ''BBB'', ''BBB'']
   \<and> reassign_topology scenario packed_AAB = Some ([], Inr reassigned_AAB)"
proof -
  have h1: "\<forall>t \<in> set [0, 0, 1]. t < length scenario \<and> laid_out (ag (scenario ! t))"
    by (simp add: scenario_def scenario_A_def scenario_B_def laid_out_def n_residues_def)
  have h2: "resindices packed_AAB = block_resindices scenario [0, 0, 1] 0"
    by (simp add: scenario_def scenario_A_def scenario_B_def packed_AAB_def n_residues_def)
  have h3: "resnames packed_AAB = block_labels scenario [0, 0, 1]"
    by (simp add: scenario_def scenario_A_def scenario_B_def packed_AAB_def n_residues_def
          block_labels_def replica_label_def str_nat.simps digit_char_def)
  have h4: "reassign_topology scenario packed_AAB = Some ([], Inr reassigned_AAB)"
    by (simp add: eval_defs walk.simps scenario_def scenario_A_def scenario_B_def packed_AAB_def
          reassigned_AAB_def)
  from residue_names_restored [OF h1 h2 h3 h4]
  have "atom_resnames reassigned_AAB = concat (map (\<lambda>t. atom_resnames (ag (scenario ! t))) [0, 0, 1])"
    by simp
  then have "atom_resnames reassigned_AAB
               = [''AAA'', ''AAA'', ''AAA'', ''AAA'', ''AAA'', ''AAA'', ''BBB'', ''BBB'']"
    by (simp add: scenario_def scenario_A_def scenario_B_def atom_resnames_def)
  with h4 show ?thesis by simp
qed

text \<open>
  C6, as stated, fails. For template D and a packed structure whose two atoms lie in two
  residues, \<^verbatim>\<open>reassign_topology\<close> returns and the second atom still has the residue name
  \<^verbatim>\<open>R0\<close>, not \<^verbatim>\<open>DDD\<close>. For template R, whose own residue name is \<^verbatim>\<open>R0\<close>, the atom
  has its template's residue name, which is its label.
\<close>

theorem label_can_remain:
  "reassign_topology [structure_D] packed_split
     = Some ([], Inr (packed_split\<lparr>resnames := [''DDD'', ''R0'']\<rparr>))
   \<and> atom_resname (packed_split\<lparr>resnames := [''DDD'', ''R0'']\<rparr>) 1 = replica_label 0
   \<and> atom_resname template_D 1 = ''DDD''
   \<and> reassign_topology [structure_R] packed_single = Some ([], Inr packed_single)
   \<and> atom_resname packed_single 0 = replica_label 0"
  by (simp add: eval_defs walk.simps structure_D_def template_D_def packed_split_def
        structure_R_def template_R_def packed_single_def replica_label_def str_nat.simps
        digit_char_def)

end
